theory Spec2Isabelle
  imports Complex_Main "HOL-Library.Sublist"
begin

section \<open>CEX wallet tracker: the detection pipeline\<close>

text \<open>
  A shallow embedding of the TypeScript sources \<^verbatim>\<open>utils/rangeParser.ts\<close>,
  \<^verbatim>\<open>utils/env.ts\<close>, \<^verbatim>\<open>utils/txParser.ts\<close>, \<^verbatim>\<open>utils/scrutinyCheck.ts\<close>,
  \<^verbatim>\<open>utils/websocket.ts\<close> and \<^verbatim>\<open>index.ts\<close>.

  Conventions of the embedding:
  \<^item> lamport balances (integral JavaScript numbers) are \<open>int\<close>; SOL amounts, which the
    code obtains by dividing by \<open>LAMPORTS_PER_SOL\<close>, are exact rationals (\<open>rat\<close>): the
    rounding of IEEE doubles, \<open>NaN\<close> and the infinities are not modelled;
  \<^item> \<open>T | null\<close> is \<open>T option\<close>; a thrown exception is the \<open>Inl\<close> branch of a sum;
  \<^item> the RPC node is a record of functions, one per call the code makes: an answer
    depends on the connection and on the arguments only;
  \<^item> console output is dropped; the call of \<^verbatim>\<open>handleDetection\<close> is the emission of a
    detection event, and a run of \<^verbatim>\<open>processLogEvent\<close> returns the events emitted, in order.
\<close>

subsection \<open>Range parsing and matching (\<^verbatim>\<open>utils/rangeParser.ts\<close>, \<^verbatim>\<open>utils/env.ts\<close>)\<close>

record range =
  range_min :: rat
  range_max :: rat

text \<open>
  The two \<^verbatim>\<open>throw new Error(...)\<close> of the parsers: \<^verbatim>\<open>Invalid range format: ${range}\<close>
  carries the offending segment, \<^verbatim>\<open>Invalid range: min (..) > max (..)\<close> the two bounds.
\<close>

datatype range_error = InvalidRangeFormat string | InvalidRangeBounds rat rat

text \<open>\<^verbatim>\<open>String.prototype.split\<close> with a one-character separator: never the empty list.\<close>

fun splitStr :: "char \<Rightarrow> string \<Rightarrow> string list" where
  "splitStr c [] = [[]]"
| "splitStr c (x # xs) =
     (if x = c then [] # splitStr c xs
      else (case splitStr c xs of [] \<Rightarrow> [[x]] | p # ps \<Rightarrow> (x # p) # ps))"

text \<open>\<^verbatim>\<open>String.prototype.trim\<close>, on the ASCII white space characters.\<close>

definition isSpace :: "char \<Rightarrow> bool" where
  "isSpace c = (c \<in> set [CHR '' '', CHR 0x09, CHR 0x0A, CHR 0x0B, CHR 0x0C, CHR 0x0D])"

definition trim :: "string \<Rightarrow> string" where
  "trim s = rev (dropWhile isSpace (rev (dropWhile isSpace s)))"

text \<open>
  \<^verbatim>\<open>const [min, max] = range.trim().split('-').map(Number)\<close>. The built-in conversion
  \<^verbatim>\<open>Number\<close> is a parameter \<open>toNumber\<close> of the parsers; \<open>None\<close> stands for \<open>NaN\<close>.
  Destructuring a list that is too short binds \<^verbatim>\<open>undefined\<close>, and
  \<^verbatim>\<open>isNaN(undefined)\<close> is true: a missing component is \<open>None\<close> as well.
\<close>

definition bounds :: "(string \<Rightarrow> rat option) \<Rightarrow> string \<Rightarrow> rat option \<times> rat option" where
  "bounds toNumber seg =
     (case map toNumber (splitStr CHR ''-'' (trim seg)) of
        [] \<Rightarrow> (None, None)
      | [a] \<Rightarrow> (a, None)
      | a # b # _ \<Rightarrow> (a, b))"

text \<open>The callback of \<^verbatim>\<open>parseRangeString\<close> (rangeParser.ts), for one segment.\<close>

definition parseRangeSegment :: "(string \<Rightarrow> rat option) \<Rightarrow> string \<Rightarrow> range_error + range" where
  "parseRangeSegment toNumber seg =
     (case bounds toNumber seg of
        (Some lo, Some hi) \<Rightarrow>
          (if lo > hi then Inl (InvalidRangeBounds lo hi)
           else Inr \<lparr>range_min = lo, range_max = hi\<rparr>)
      | _ \<Rightarrow> Inl (InvalidRangeFormat seg))"

text \<open>The callback of \<^verbatim>\<open>parseRanges\<close> (env.ts), which \<^verbatim>\<open>loadConfig\<close> calls.\<close>

definition parseRangesSegment :: "(string \<Rightarrow> rat option) \<Rightarrow> string \<Rightarrow> range_error + range" where
  "parseRangesSegment toNumber seg =
     (case bounds toNumber seg of
        (Some lo, Some hi) \<Rightarrow> Inr \<lparr>range_min = lo, range_max = hi\<rparr>
      | _ \<Rightarrow> Inl (InvalidRangeFormat seg))"

text \<open>\<^verbatim>\<open>Array.prototype.map\<close> with a callback that may throw: the first throw ends it.\<close>

fun mapThrowing :: "('a \<Rightarrow> 'e + 'b) \<Rightarrow> 'a list \<Rightarrow> 'e + 'b list" where
  "mapThrowing f [] = Inr []"
| "mapThrowing f (x # xs) =
     (case f x of
        Inl e \<Rightarrow> Inl e
      | Inr y \<Rightarrow> (case mapThrowing f xs of Inl e \<Rightarrow> Inl e | Inr ys \<Rightarrow> Inr (y # ys)))"

definition parseRangeString :: "(string \<Rightarrow> rat option) \<Rightarrow> string \<Rightarrow> range_error + range list" where
  "parseRangeString toNumber rangeStr =
     mapThrowing (parseRangeSegment toNumber) (splitStr CHR '','' rangeStr)"

definition parseRanges :: "(string \<Rightarrow> rat option) \<Rightarrow> string \<Rightarrow> range_error + range list" where
  "parseRanges toNumber rangeStr =
     mapThrowing (parseRangesSegment toNumber) (splitStr CHR '','' rangeStr)"

text \<open>
  A concrete conversion for the examples: \<^verbatim>\<open>Number\<close> on unsigned decimal literals
  (digits, optionally a point and more digits) and on the empty string, which
  \<^verbatim>\<open>Number\<close> converts to 0. Every other string is taken as \<open>NaN\<close>; the examples below
  use it only on strings where that is what \<^verbatim>\<open>Number\<close> returns.
\<close>

definition isDigit :: "char \<Rightarrow> bool" where
  "isDigit c = (48 \<le> (of_char c :: nat) \<and> (of_char c :: nat) \<le> 57)"

definition digitsValue :: "string \<Rightarrow> nat" where
  "digitsValue s = foldl (\<lambda>n c. 10 * n + (of_char c - 48)) 0 s"

definition decimalNumber :: "string \<Rightarrow> rat option" where
  "decimalNumber s =
     (let ip = takeWhile isDigit s; rest = dropWhile isDigit s in
      if rest = [] then Some (of_nat (digitsValue ip))
      else if hd rest = CHR ''.'' \<and> list_all isDigit (tl rest) \<and> (ip \<noteq> [] \<or> tl rest \<noteq> [])
        then Some (of_nat (digitsValue ip)
                   + of_nat (digitsValue (tl rest)) / of_nat (10 ^ length (tl rest)))
      else None)"

text \<open>\<^verbatim>\<open>ranges.some(...)\<close> and \<^verbatim>\<open>ranges.find(...) || null\<close> (a range object is truthy).\<close>

fun isAmountInRange :: "rat \<Rightarrow> range list \<Rightarrow> bool" where
  "isAmountInRange amount [] = False"
| "isAmountInRange amount (r # rs) =
     ((amount \<ge> range_min r \<and> amount \<le> range_max r) \<or> isAmountInRange amount rs)"

fun getMatchingRange :: "rat \<Rightarrow> range list \<Rightarrow> range option" where
  "getMatchingRange amount [] = None"
| "getMatchingRange amount (r # rs) =
     (if amount \<ge> range_min r \<and> amount \<le> range_max r then Some r
      else getMatchingRange amount rs)"

subsection \<open>Parsed transactions and the RPC node\<close>

text \<open>\<^verbatim>\<open>LAMPORTS_PER_SOL\<close> of \<^verbatim>\<open>@solana/web3.js\<close>.\<close>

definition LAMPORTS_PER_SOL :: rat where
  "LAMPORTS_PER_SOL = 1000000000"

text \<open>
  A thrown value: an \<^verbatim>\<open>Error\<close> with its message, or anything else
  (\<^verbatim>\<open>error instanceof Error ? error.message : 'Unknown'\<close>).
\<close>

datatype js_error = JsError string | NonError

text \<open>
  An entry of \<^verbatim>\<open>transaction.message.accountKeys\<close>, by the cases the code tells apart:
  a string; an object whose \<^verbatim>\<open>pubkey\<close> is a string; an object whose \<^verbatim>\<open>pubkey\<close> has a
  \<^verbatim>\<open>toBase58\<close> method (the argument is what the method returns); anything else (the
  argument is \<^verbatim>\<open>String(entry)\<close>).
\<close>

datatype account_key =
    KeyString string
  | PubkeyString string
  | PubkeyObject string
  | OtherEntry string

text \<open>The callback of \<^verbatim>\<open>accountKeys.map\<close> in index.ts and scrutinyCheck.ts.\<close>

fun entryAddress :: "account_key \<Rightarrow> string" where
  "entryAddress (KeyString s) = s"
| "entryAddress (PubkeyString s) = s"
| "entryAddress (PubkeyObject s) = s"
| "entryAddress (OtherEntry s) = s"

text \<open>
  The callback \<^verbatim>\<open>(ak) => ak.pubkey.toBase58()\<close> of txParser.ts: it raises a
  \<^verbatim>\<open>TypeError\<close> on every entry that has no such method.
\<close>

fun pubkeyToBase58 :: "account_key \<Rightarrow> js_error + string" where
  "pubkeyToBase58 (PubkeyObject s) = Inr s"
| "pubkeyToBase58 _ = Inl (JsError ''TypeError'')"

record tx_meta =
  preBalances :: "int list option"
  postBalances :: "int list option"

record parsed_tx =
  meta :: "tx_meta option"
  message_accountKeys :: "account_key list option"
  blockTime :: "int option"

text \<open>\<^verbatim>\<open>xs || []\<close> on an array that may be missing.\<close>

definition orEmpty :: "'a list option \<Rightarrow> 'a list" where
  "orEmpty xs = (case xs of None \<Rightarrow> [] | Some ys \<Rightarrow> ys)"

text \<open>\<^verbatim>\<open>balances[i] || 0\<close>: an index out of range reads \<^verbatim>\<open>undefined\<close>, which is falsy.\<close>

definition balanceAt :: "int list \<Rightarrow> nat \<Rightarrow> int" where
  "balanceAt balances i = (if i < length balances then balances ! i else 0)"

text \<open>
  The node, as the code calls it. \<open>newPublicKey\<close> is the constructor
  \<^verbatim>\<open>new PublicKey(address)\<close>, which throws on a string that is no key (\<open>Some\<close> of the
  error); \<open>getSignaturesForAddress\<close> is called with \<^verbatim>\<open>limit: 1\<close> and returns the
  signatures found; \<open>getParsedTransaction\<close> is the call on the shared \<^verbatim>\<open>connection\<close>,
  \<open>getParsedTransaction2\<close> the one on the \<^verbatim>\<open>connection2\<close> that \<^verbatim>\<open>processLogEvent\<close>
  opens for each wallet.
\<close>

record rpc =
  newPublicKey :: "string \<Rightarrow> js_error option"
  getSignaturesForAddress :: "string \<Rightarrow> js_error + string list"
  getParsedTransaction :: "string \<Rightarrow> js_error + parsed_tx option"
  getParsedTransaction2 :: "string \<Rightarrow> js_error + parsed_tx option"

text \<open>
  A \<^verbatim>\<open>for (let i = 0; i < n; i++)\<close> loop that leaves by \<^verbatim>\<open>break\<close> at the first index
  where its test \<open>P\<close> holds: the index it stops at, if any.
\<close>

function forBreak :: "(nat \<Rightarrow> bool) \<Rightarrow> nat \<Rightarrow> nat \<Rightarrow> nat option" where
  "forBreak P n i = (if i < n then (if P i then Some i else forBreak P n (Suc i)) else None)"
  by pat_completeness auto
termination
  by (relation "measure (\<lambda>(P, n, i). n - i)") auto

declare forBreak.simps [simp del]

subsection \<open>The transaction analyzer (\<^verbatim>\<open>utils/txParser.ts\<close>)\<close>

record TransferDetail =
  transfer_from :: string
  transfer_to :: string
  amount :: rat

record TransactionAnalysis =
  signature :: string
  timestamp :: "int option"
  outgoingTransfers :: "TransferDetail list"
  incomingTransfers :: "TransferDetail list"
  accountKeys :: "string list"

text \<open>
  The loop over the address indices, from index \<open>i\<close> on, with the two arrays it pushes to.
\<close>

function analyzeBalances ::
  "string list \<Rightarrow> int list \<Rightarrow> int list \<Rightarrow> nat \<Rightarrow> TransferDetail list \<times> TransferDetail list
     \<Rightarrow> TransferDetail list \<times> TransferDetail list" where
  "analyzeBalances addresses pre post i (outgoing, incoming) =
     (if i < length addresses then
        (let preBalance = balanceAt pre i;
             postBalance = balanceAt post i;
             diff = of_int (preBalance - postBalance) / LAMPORTS_PER_SOL
         in if diff > 0 then
              analyzeBalances addresses pre post (Suc i)
                (outgoing @ [\<lparr>transfer_from = addresses ! i, transfer_to = ''multiple'',
                              amount = diff\<rparr>], incoming)
            else if diff < 0 then
              analyzeBalances addresses pre post (Suc i)
                (outgoing, incoming @ [\<lparr>transfer_from = ''multiple'',
                                        transfer_to = addresses ! i, amount = \<bar>diff\<bar>\<rparr>])
            else analyzeBalances addresses pre post (Suc i) (outgoing, incoming))
      else (outgoing, incoming))"
  by pat_completeness auto
termination
  by (relation "measure (\<lambda>(addresses, pre, post, i, acc). length addresses - i)") auto

declare analyzeBalances.simps [simp del]

text \<open>\<^verbatim>\<open>tx.blockTime || undefined\<close>: a block time of 0 is falsy.\<close>

definition truthyTime :: "int option \<Rightarrow> int option" where
  "truthyTime t = (case t of None \<Rightarrow> None | Some v \<Rightarrow> if v = 0 then None else Some v)"

text \<open>
  The body of the \<^verbatim>\<open>try\<close> block, after the fetch: \<open>Inl\<close> is an exception on its way to
  the \<^verbatim>\<open>catch\<close>. \<^verbatim>\<open>tx.meta?.preBalances || []\<close> reads a missing \<^verbatim>\<open>meta\<close> as no
  balances. \<^verbatim>\<open>accountKeys.map\<close> on a missing array is a \<^verbatim>\<open>TypeError\<close>.
\<close>

definition parseTransaction :: "string \<Rightarrow> parsed_tx option \<Rightarrow> js_error + TransactionAnalysis option" where
  "parseTransaction sig txo =
     (case txo of
        None \<Rightarrow> Inr None
      | Some tx \<Rightarrow>
          (let pre = (case meta tx of None \<Rightarrow> [] | Some m \<Rightarrow> orEmpty (preBalances m));
               post = (case meta tx of None \<Rightarrow> [] | Some m \<Rightarrow> orEmpty (postBalances m))
           in case message_accountKeys tx of
                None \<Rightarrow> Inl (JsError ''TypeError'')
              | Some keys \<Rightarrow>
                  (case mapThrowing pubkeyToBase58 keys of
                     Inl e \<Rightarrow> Inl e
                   | Inr addresses \<Rightarrow>
                       (let (outgoing, incoming) = analyzeBalances addresses pre post 0 ([], [])
                        in Inr (Some \<lparr>signature = sig, timestamp = truthyTime (blockTime tx),
                                      outgoingTransfers = outgoing, incomingTransfers = incoming,
                                      accountKeys = addresses\<rparr>)))))"

text \<open>\<^verbatim>\<open>fetchAndParseTransaction\<close>: the \<^verbatim>\<open>catch\<close> turns every exception into \<^verbatim>\<open>null\<close>.\<close>

definition fetchAndParseTransaction :: "rpc \<Rightarrow> string \<Rightarrow> TransactionAnalysis option" where
  "fetchAndParseTransaction connection sig =
     (case getParsedTransaction connection sig of
        Inl e \<Rightarrow> None
      | Inr txo \<Rightarrow> (case parseTransaction sig txo of Inl e \<Rightarrow> None | Inr r \<Rightarrow> r))"

subsection \<open>The scrutiny check (\<^verbatim>\<open>utils/scrutinyCheck.ts\<close>)\<close>

datatype condition = LOOP_DETECTED | FIRST_TIME_ACTIVITY | NONE

record ScrutinyResult =
  alertTriggered :: bool
  condition :: condition
  previousInflowSource :: "string option"
  previousInflowSignature :: "string option"
  explanation :: string

text \<open>\<^verbatim>\<open>`${address.slice(0, 4)}...${address.slice(-4)}`\<close>\<close>

definition formatAddressShort :: "string \<Rightarrow> string" where
  "formatAddressShort a = take 4 a @ ''...'' @ drop (length a - 4) a"

text \<open>The arrow of the loop explanation, as its UTF-8 bytes.\<close>

definition arrow :: string where
  "arrow = [CHR 0xE2, CHR 0x86, CHR 0x92]"

text \<open>
  The inner loop: the first index \<open>j\<close> other than \<open>i\<close> whose balance went down by exactly
  \<open>diff\<close> (\<^verbatim>\<open>sourceDiff > 0 && sourceDiff === diff\<close>); \<^verbatim>\<open>'UNKNOWN'\<close> when there is none.
\<close>

definition findInflowSource :: "string list \<Rightarrow> int list \<Rightarrow> int list \<Rightarrow> nat \<Rightarrow> rat \<Rightarrow> string" where
  "findInflowSource addresses pre post i diff =
     (case forBreak
             (\<lambda>j. j \<noteq> i \<and>
                  (let sourcePreBalance = balanceAt pre j;
                       sourcePostBalance = balanceAt post j;
                       sourceDiff = of_int (sourcePreBalance - sourcePostBalance) / LAMPORTS_PER_SOL
                   in sourceDiff > 0 \<and> sourceDiff = diff))
             (length addresses) 0 of
        None \<Rightarrow> ''UNKNOWN''
      | Some j \<Rightarrow> addresses ! j)"

text \<open>
  The outer loop: it stops at the first index that holds the recipient and whose balance
  went up. The result is the pair \<^verbatim>\<open>(inflowFound, inflowSource)\<close>.
\<close>

definition findInflow :: "string list \<Rightarrow> int list \<Rightarrow> int list \<Rightarrow> string \<Rightarrow> bool \<times> string" where
  "findInflow addresses pre post recipientAddress =
     (case forBreak
             (\<lambda>i. addresses ! i = recipientAddress \<and>
                  of_int (balanceAt post i - balanceAt pre i) / LAMPORTS_PER_SOL > (0::rat))
             (length addresses) 0 of
        None \<Rightarrow> (False, ''UNKNOWN'')
      | Some i \<Rightarrow>
          (True, findInflowSource addresses pre post i
                   (of_int (balanceAt post i - balanceAt pre i) / LAMPORTS_PER_SOL)))"

text \<open>The body of the \<^verbatim>\<open>try\<close> block: \<open>Inl\<close> is an exception on its way to the \<^verbatim>\<open>catch\<close>.\<close>

definition scrutinyBody :: "rpc \<Rightarrow> string \<Rightarrow> string \<Rightarrow> string \<Rightarrow> js_error + ScrutinyResult" where
  "scrutinyBody connection recipientAddress cexAddress cexLabel =
     (case newPublicKey connection recipientAddress of
        Some e \<Rightarrow> Inl e
      | None \<Rightarrow>
     (case getSignaturesForAddress connection recipientAddress of
        Inl e \<Rightarrow> Inl e
      | Inr [] \<Rightarrow>
          Inr \<lparr>alertTriggered = True, condition = FIRST_TIME_ACTIVITY,
               previousInflowSource = None, previousInflowSignature = None,
               explanation = ''No previous transaction history found for recipient''\<rparr>
      | Inr (previousTx # _) \<Rightarrow>
     (case getParsedTransaction connection previousTx of
        Inl e \<Rightarrow> Inl e
      | Inr txDetails \<Rightarrow>
     (case (case txDetails of None \<Rightarrow> None | Some tx \<Rightarrow> map_option (Pair tx) (meta tx)) of
        None \<Rightarrow>
          Inr \<lparr>alertTriggered = False, condition = NONE,
               previousInflowSource = None, previousInflowSignature = None,
               explanation = ''Could not parse previous transaction''\<rparr>
      | Some (tx, m) \<Rightarrow>
          (let pre = orEmpty (preBalances m);
               post = orEmpty (postBalances m);
               addresses = map entryAddress (orEmpty (message_accountKeys tx));
               (inflowFound, inflowSource) = findInflow addresses pre post recipientAddress
           in if \<not> inflowFound then
                Inr \<lparr>alertTriggered = True, condition = FIRST_TIME_ACTIVITY,
                     previousInflowSource = None, previousInflowSignature = Some previousTx,
                     explanation = ''No inflow detected in previous transaction''\<rparr>
              else if inflowSource = cexAddress then
                Inr \<lparr>alertTriggered = True, condition = LOOP_DETECTED,
                     previousInflowSource = Some inflowSource,
                     previousInflowSignature = Some previousTx,
                     explanation = cexLabel @ '' '' @ arrow @ '' Recipient '' @ arrow @ '' ''
                                   @ cexLabel @ '' (Loop detected)''\<rparr>
              else
                Inr \<lparr>alertTriggered = False, condition = NONE,
                     previousInflowSource = Some inflowSource,
                     previousInflowSignature = Some previousTx,
                     explanation = ''Previous inflow from '' @ formatAddressShort inflowSource
                                   @ '', no loop detected''\<rparr>)))))"

text \<open>The \<^verbatim>\<open>catch\<close> block.\<close>

definition scrutinyError :: "js_error \<Rightarrow> ScrutinyResult" where
  "scrutinyError e =
     \<lparr>alertTriggered = False, condition = NONE,
      previousInflowSource = None, previousInflowSignature = None,
      explanation = ''Error during scrutiny check: ''
                    @ (case e of JsError msg \<Rightarrow> msg | NonError \<Rightarrow> ''Unknown'')\<rparr>"

definition performScrutinyCheck :: "rpc \<Rightarrow> string \<Rightarrow> string \<Rightarrow> string \<Rightarrow> ScrutinyResult" where
  "performScrutinyCheck connection recipientAddress cexAddress cexLabel =
     (case scrutinyBody connection recipientAddress cexAddress cexLabel of
        Inl e \<Rightarrow> scrutinyError e
      | Inr r \<Rightarrow> r)"

subsection \<open>The coordinator (\<^verbatim>\<open>index.ts\<close>)\<close>



text \<open>The event handed to \<^verbatim>\<open>handleDetection\<close> (the wall-clock \<^verbatim>\<open>timestamp\<close> is left out).\<close>

record DetectionEvent =
  event_signature :: string
  cexLabel :: string
  cexAddress :: string
  recipientAddress :: string
  outgoingAmount :: rat
  matchedRange :: range
  scrutinyResult :: ScrutinyResult


text \<open>
  The recipient loop of \<^verbatim>\<open>processLogEvent\<close>: the address at the first index other than
  \<open>cexAccountIndex\<close> whose balance rise is closer than 0.0001 to the outgoing amount.
\<close>

definition findRecipient :: "string list \<Rightarrow> int list \<Rightarrow> int list \<Rightarrow> nat \<Rightarrow> rat \<Rightarrow> string option" where
  "findRecipient addresses pre post cexAccountIndex outgoing =
     (case forBreak
             (\<lambda>i. i \<noteq> cexAccountIndex \<and>
                  (let preBalance = balanceAt pre i;
                       postBalance = balanceAt post i;
                       diff = of_int (postBalance - preBalance) / LAMPORTS_PER_SOL
                   in \<bar>diff - outgoing\<bar> < 1 / 10000))
             (length addresses) 0 of
        None \<Rightarrow> None
      | Some i \<Rightarrow> Some (addresses ! i))"




subsection \<open>The stream client (\<^verbatim>\<open>utils/websocket.ts\<close>)\<close>

datatype ready_state = CONNECTING | OPEN | CLOSING | CLOSED

text \<open>
  The \<^verbatim>\<open>result\<close> member of a decoded message: missing, a number (the subscription
  identifier of a response), or an object with a \<^verbatim>\<open>value\<close> holding a signature and logs.
\<close>

datatype msg_result = NoResult | ResultNumber nat | ResultValue string "string list"

datatype ws_message = Unparseable | Message msg_result "string option"

text \<open>JavaScript truthiness of such a value: \<^verbatim>\<open>undefined\<close>, \<^verbatim>\<open>null\<close> and 0 are falsy.\<close>

fun truthy :: "msg_result \<Rightarrow> bool" where
  "truthy NoResult = False"
| "truthy (ResultNumber n) = (n \<noteq> 0)"
| "truthy (ResultValue sig logs) = True"

record WebSocketListener =
  ws :: "ready_state option"
  subscriptionId :: msg_result
  reconnectAttempts :: nat
  maxReconnectAttempts :: nat
  reconnectDelay :: nat
  isManualClose :: bool

text \<open>What a handler asks of the outside world, in order.\<close>

datatype ws_action =
    OpenSocket
  | SendSubscribe
  | DeliverLog string "string list"
  | ScheduleConnect nat
  | CloseSocket

text \<open>The field initialisers of the class.\<close>

definition newListener :: WebSocketListener where
  "newListener =
     \<lparr>ws = None, subscriptionId = NoResult, reconnectAttempts = 0,
      maxReconnectAttempts = 10, reconnectDelay = 3000, isManualClose = False\<rparr>"

definition connect :: "WebSocketListener \<Rightarrow> WebSocketListener \<times> ws_action list" where
  "connect s = (s\<lparr>ws := Some CONNECTING\<rparr>, [OpenSocket])"

definition subscribe :: "WebSocketListener \<Rightarrow> WebSocketListener \<times> ws_action list" where
  "subscribe s = (if ws s \<noteq> Some OPEN then (s, []) else (s, [SendSubscribe]))"

text \<open>
  The \<^verbatim>\<open>'open'\<close> handler. The socket, if the listener still holds one, is in state
  \<^verbatim>\<open>OPEN\<close> when the handler runs.
\<close>

definition onOpen :: "WebSocketListener \<Rightarrow> WebSocketListener \<times> ws_action list" where
  "onOpen s =
     subscribe (s\<lparr>ws := map_option (\<lambda>_. OPEN) (ws s), reconnectAttempts := 0\<rparr>)"

text \<open>
  \<^verbatim>\<open>handleMessage\<close> with \<^verbatim>\<open>handleLogsNotification\<close>; reading \<^verbatim>\<open>result.value\<close> of a
  message without such an object throws, and the \<^verbatim>\<open>catch\<close> drops the message. The
  \<^verbatim>\<open>onLog\<close> callback is the one \<^verbatim>\<open>index.ts\<close> registers.
\<close>

definition handleMessage :: "ws_message \<Rightarrow> WebSocketListener \<Rightarrow> WebSocketListener \<times> ws_action list" where
  "handleMessage msg s =
     (case msg of
        Unparseable \<Rightarrow> (s, [])
      | Message res method \<Rightarrow>
          if truthy res \<and> \<not> truthy (subscriptionId s) then (s\<lparr>subscriptionId := res\<rparr>, [])
          else if method = Some ''logsNotification'' then
            (case res of
               ResultValue sig logs \<Rightarrow> (s, [DeliverLog sig logs])
             | _ \<Rightarrow> (s, []))
          else (s, []))"

definition reconnect :: "WebSocketListener \<Rightarrow> WebSocketListener \<times> ws_action list" where
  "reconnect s =
     (if reconnectAttempts s \<ge> maxReconnectAttempts s then (s, [])
      else
        (let s' = s\<lparr>reconnectAttempts := reconnectAttempts s + 1\<rparr>;
             delay = reconnectDelay s' * 2 ^ (reconnectAttempts s' - 1)
         in (s', [ScheduleConnect delay])))"

text \<open>The \<^verbatim>\<open>'close'\<close> handler.\<close>

definition onClose :: "WebSocketListener \<Rightarrow> WebSocketListener \<times> ws_action list" where
  "onClose s = (if \<not> isManualClose s then reconnect s else (s, []))"

text \<open>The public \<^verbatim>\<open>close()\<close>.\<close>

definition close :: "WebSocketListener \<Rightarrow> WebSocketListener \<times> ws_action list" where
  "close s =
     (s\<lparr>isManualClose := True, ws := None\<rparr>, if ws s \<noteq> None then [CloseSocket] else [])"

text \<open>
  What can happen to a listener: the socket opens, delivers a message, reports an error
  (the handler only logs and rejects the promise) or closes; \<^verbatim>\<open>connect()\<close> is called,
  by the host at start or by the timer that \<^verbatim>\<open>reconnect\<close> has set; the host calls
  \<^verbatim>\<open>close()\<close>.
\<close>

datatype ws_event = Opened | Received ws_message | Errored | Closed | ConnectCalled | ManualClose

fun step :: "ws_event \<Rightarrow> WebSocketListener \<Rightarrow> WebSocketListener \<times> ws_action list" where
  "step Opened s = onOpen s"
| "step (Received msg) s = handleMessage msg s"
| "step Errored s = (s, [])"
| "step Closed s = onClose s"
| "step ConnectCalled s = connect s"
| "step ManualClose s = close s"

text \<open>A run: the state after a list of events, and all actions asked for.\<close>

fun run :: "ws_event list \<Rightarrow> WebSocketListener \<Rightarrow> WebSocketListener \<times> ws_action list" where
  "run [] s = (s, [])"
| "run (e # es) s = (let (s1, a1) = step e s; (s2, a2) = run es s1 in (s2, a1 @ a2))"

text \<open>
  The listener is subscribed once the identifier of the subscription response is stored.
\<close>

definition subscribed :: "WebSocketListener \<Rightarrow> bool" where
  "subscribed s = truthy (subscriptionId s)"

subsection \<open>The source identification of the specification\<close>

text \<open>
  The source identification as the specification words it, for comparison with
  \<open>findInflowSource\<close>: the recipient heuristic run in reverse, that is the first address
  other than the one at index \<open>i\<close> whose balance decrease is within 1/10,000 of a unit of
  the inflow.
\<close>

definition spec_inflowSource :: "string list \<Rightarrow> int list \<Rightarrow> int list \<Rightarrow> nat \<Rightarrow> rat \<Rightarrow> string option" where
  "spec_inflowSource addresses pre post i inflow =
     (case forBreak
             (\<lambda>j. j \<noteq> i \<and>
                  \<bar>of_int (balanceAt pre j - balanceAt post j) / LAMPORTS_PER_SOL - inflow\<bar>
                    < 1 / 10000)
             (length addresses) 0 of
        None \<Rightarrow> None
      | Some j \<Rightarrow> Some (addresses ! j))"

subsection \<open>Example inputs\<close>

text \<open>
  A node that accepts every address and answers every signature lookup with \<open>sigs\<close> and
  every transaction fetch, on either connection, with \<open>tx\<close>.
\<close>

definition stubNode :: "(js_error + string list) \<Rightarrow> (js_error + parsed_tx option) \<Rightarrow> rpc" where
  "stubNode sigs tx =
     \<lparr>newPublicKey = (\<lambda>a. None), getSignaturesForAddress = (\<lambda>a. sigs),
      getParsedTransaction = (\<lambda>s. tx), getParsedTransaction2 = (\<lambda>s. tx)\<rparr>"

text \<open>
  A transfer of 1 SOL from \<^verbatim>\<open>CEX\<close> to \<^verbatim>\<open>R\<close>, the fee of 5000 lamports paid by a
  third account.
\<close>

definition exactTransferTx :: parsed_tx where
  "exactTransferTx =
     \<lparr>meta = Some \<lparr>preBalances = Some [5000000000, 0, 10000],
                   postBalances = Some [4000000000, 1000000000, 5000]\<rparr>,
      message_accountKeys = Some [PubkeyObject ''CEX'', PubkeyObject ''R'', PubkeyObject ''FEE''],
      blockTime = Some 1700000000\<rparr>"

text \<open>
  A transfer of 1 SOL from \<^verbatim>\<open>CEX\<close> to \<^verbatim>\<open>R\<close> in which \<^verbatim>\<open>CEX\<close> also pays the fee of
  5000 lamports.
\<close>

definition feeTransferTx :: parsed_tx where
  "feeTransferTx =
     \<lparr>meta = Some \<lparr>preBalances = Some [2000005000, 0],
                   postBalances = Some [1000000000, 1000000000]\<rparr>,
      message_accountKeys = Some [PubkeyObject ''CEX'', PubkeyObject ''R''],
      blockTime = Some 1700000000\<rparr>"





section \<open>Properties\<close>

subsection \<open>Range matching\<close>


lemma isAmountInRange_iff:
  "isAmountInRange amt rs \<longleftrightarrow> (\<exists>r\<in>set rs. range_min r \<le> amt \<and> amt \<le> range_max r)"
  by (induction rs) auto

lemma getMatchingRange_None_iff:
  "getMatchingRange amt rs = None \<longleftrightarrow> \<not> (\<exists>r\<in>set rs. range_min r \<le> amt \<and> amt \<le> range_max r)"
  by (induction rs) auto

lemma getMatchingRange_Some_iff:
  "getMatchingRange amt rs = Some r \<longleftrightarrow>
     (\<exists>i<length rs. r = rs ! i \<and> range_min (rs ! i) \<le> amt \<and> amt \<le> range_max (rs ! i)
        \<and> (\<forall>j<i. \<not> (range_min (rs ! j) \<le> amt \<and> amt \<le> range_max (rs ! j))))"
proof (induction rs)
  case Nil
  show ?case by simp
next
  case (Cons x xs)
  show ?case
  proof (cases "range_min x \<le> amt \<and> amt \<le> range_max x")
    case True
    have "(\<exists>i<length (x # xs). r = (x # xs) ! i \<and> range_min ((x # xs) ! i) \<le> amt \<and> amt \<le> range_max ((x # xs) ! i)
        \<and> (\<forall>j<i. \<not> (range_min ((x # xs) ! j) \<le> amt \<and> amt \<le> range_max ((x # xs) ! j)))) \<longleftrightarrow> r = x"
    proof
      assume "\<exists>i<length (x # xs). r = (x # xs) ! i \<and> range_min ((x # xs) ! i) \<le> amt \<and> amt \<le> range_max ((x # xs) ! i)
        \<and> (\<forall>j<i. \<not> (range_min ((x # xs) ! j) \<le> amt \<and> amt \<le> range_max ((x # xs) ! j)))"
      then obtain i where i: "r = (x # xs) ! i" "\<forall>j<i. \<not> (range_min ((x # xs) ! j) \<le> amt \<and> amt \<le> range_max ((x # xs) ! j))"
        by blast
      have "i = 0"
      proof (rule ccontr)
        assume "i \<noteq> 0"
        then have "0 < i" by simp
        with i(2) have "\<not> (range_min ((x # xs) ! 0) \<le> amt \<and> amt \<le> range_max ((x # xs) ! 0))" by blast
        with True show False by simp
      qed
      with i(1) show "r = x" by simp
    next
      assume "r = x"
      with True show "\<exists>i<length (x # xs). r = (x # xs) ! i \<and> range_min ((x # xs) ! i) \<le> amt \<and> amt \<le> range_max ((x # xs) ! i)
        \<and> (\<forall>j<i. \<not> (range_min ((x # xs) ! j) \<le> amt \<and> amt \<le> range_max ((x # xs) ! j)))"
        by (intro exI[of _ 0]) simp
    qed
    with True show ?thesis by auto
  next
    case False
    have "(\<exists>i<length (x # xs). r = (x # xs) ! i \<and> range_min ((x # xs) ! i) \<le> amt \<and> amt \<le> range_max ((x # xs) ! i)
        \<and> (\<forall>j<i. \<not> (range_min ((x # xs) ! j) \<le> amt \<and> amt \<le> range_max ((x # xs) ! j))))
      \<longleftrightarrow> (\<exists>i<length xs. r = xs ! i \<and> range_min (xs ! i) \<le> amt \<and> amt \<le> range_max (xs ! i)
        \<and> (\<forall>j<i. \<not> (range_min (xs ! j) \<le> amt \<and> amt \<le> range_max (xs ! j))))" (is "?L \<longleftrightarrow> ?R")
    proof (rule iffI)
      assume ?L
      then obtain i where i: "i < length (x # xs)" "r = (x # xs) ! i" "range_min ((x # xs) ! i) \<le> amt \<and> amt \<le> range_max ((x # xs) ! i)"
        "\<forall>j<i. \<not> (range_min ((x # xs) ! j) \<le> amt \<and> amt \<le> range_max ((x # xs) ! j))" by blast
      from i(3) False have "i \<noteq> 0" by (cases i) auto
      then obtain k where k: "i = Suc k" by (cases i) auto
      have "\<forall>j<k. \<not> (range_min (xs ! j) \<le> amt \<and> amt \<le> range_max (xs ! j))"
      proof (intro allI impI)
        fix j assume "j < k"
        then have "Suc j < i" using k by simp
        with i(4) have "\<not> (range_min ((x # xs) ! Suc j) \<le> amt \<and> amt \<le> range_max ((x # xs) ! Suc j))" by blast
        then show "\<not> (range_min (xs ! j) \<le> amt \<and> amt \<le> range_max (xs ! j))" by simp
      qed
      with i k show ?R by (intro exI[of _ k]) simp
    next
      assume ?R
      then obtain k where k: "k < length xs" "r = xs ! k" "range_min (xs ! k) \<le> amt \<and> amt \<le> range_max (xs ! k)"
        "\<forall>j<k. \<not> (range_min (xs ! j) \<le> amt \<and> amt \<le> range_max (xs ! j))" by blast
      have "\<forall>j<Suc k. \<not> (range_min ((x # xs) ! j) \<le> amt \<and> amt \<le> range_max ((x # xs) ! j))"
      proof (intro allI impI)
        fix j assume "j < Suc k"
        show "\<not> (range_min ((x # xs) ! j) \<le> amt \<and> amt \<le> range_max ((x # xs) ! j))"
        proof (cases j)
          case 0 with False show ?thesis by simp
        next
          case (Suc m)
          with \<open>j < Suc k\<close> have "m < k" by simp
          with k(4) Suc show ?thesis by simp
        qed
      qed
      with k show ?L by (intro exI[of _ "Suc k"]) simp
    qed
    moreover from False have "getMatchingRange amt (x # xs) = getMatchingRange amt xs" by auto
    ultimately show ?thesis using Cons.IH by (simp only:)
  qed
qed

text \<open>
  Claim C3. For ranges with \<open>min \<le> max\<close>, \<^verbatim>\<open>isAmountInRange\<close> holds exactly when some
  range contains the amount, both bounds included: the bounds themselves match, and for
  a single range anything below \<open>min\<close> or above \<open>max\<close> does not. \<^verbatim>\<open>getMatchingRange\<close>
  returns the first range, in the order of the list, that contains the amount, and none
  when no range does. The string \<^verbatim>\<open>13-15,14-26\<close> parses to two ranges in that order
  and the amount 14 is matched to 13-15.
\<close>

theorem range_matching_inclusive_first_match:
  assumes "\<forall>r\<in>set rs0. range_min r \<le> range_max r"
  shows "(isAmountInRange amt rs0 \<longleftrightarrow>
            (\<exists>r\<in>set rs0. range_min r \<le> amt \<and> amt \<le> range_max r))
       \<and> (\<forall>r\<in>set rs0. isAmountInRange (range_min r) rs0 \<and> isAmountInRange (range_max r) rs0)
       \<and> (\<forall>r\<in>set rs0. \<forall>e>0. \<not> isAmountInRange (range_min r - e) [r]
                                    \<and> \<not> isAmountInRange (range_max r + e) [r])
       \<and> (getMatchingRange amt rs0 = None \<longleftrightarrow>
            \<not> (\<exists>r\<in>set rs0. range_min r \<le> amt \<and> amt \<le> range_max r))
       \<and> (\<forall>r. getMatchingRange amt rs0 = Some r \<longleftrightarrow>
            (\<exists>i<length rs0. r = rs0 ! i
               \<and> range_min (rs0 ! i) \<le> amt \<and> amt \<le> range_max (rs0 ! i)
               \<and> (\<forall>j<i. \<not> (range_min (rs0 ! j) \<le> amt \<and> amt \<le> range_max (rs0 ! j)))))
       \<and> (case parseRangeString decimalNumber ''13-15,14-26'' of
            Inl e \<Rightarrow> False
          | Inr rs \<Rightarrow> rs = [\<lparr>range_min = 13, range_max = 15\<rparr>, \<lparr>range_min = 14, range_max = 26\<rparr>]
                      \<and> getMatchingRange 14 rs = Some \<lparr>range_min = 13, range_max = 15\<rparr>)"
proof -
  have a: "isAmountInRange amt rs0 \<longleftrightarrow>
            (\<exists>r\<in>set rs0. range_min r \<le> amt \<and> amt \<le> range_max r)"
    by (rule isAmountInRange_iff)
  have b: "\<forall>r\<in>set rs0. isAmountInRange (range_min r) rs0 \<and> isAmountInRange (range_max r) rs0"
    using assms by (auto simp: isAmountInRange_iff)
  have c: "\<forall>r\<in>set rs0. \<forall>e>0. \<not> isAmountInRange (range_min r - e) [r]
                                    \<and> \<not> isAmountInRange (range_max r + e) [r]"
    by simp
  have d: "getMatchingRange amt rs0 = None \<longleftrightarrow>
            \<not> (\<exists>r\<in>set rs0. range_min r \<le> amt \<and> amt \<le> range_max r)"
    by (rule getMatchingRange_None_iff)
  have e: "\<forall>r. getMatchingRange amt rs0 = Some r \<longleftrightarrow>
            (\<exists>i<length rs0. r = rs0 ! i
               \<and> range_min (rs0 ! i) \<le> amt \<and> amt \<le> range_max (rs0 ! i)
               \<and> (\<forall>j<i. \<not> (range_min (rs0 ! j) \<le> amt \<and> amt \<le> range_max (rs0 ! j))))"
    by (intro allI getMatchingRange_Some_iff)
  have p: "parseRangeString decimalNumber ''13-15,14-26''
             = Inr [\<lparr>range_min = 13, range_max = 15\<rparr>, \<lparr>range_min = 14, range_max = 26\<rparr>]"
    by code_simp
  have f: "(case parseRangeString decimalNumber ''13-15,14-26'' of
            Inl e \<Rightarrow> False
          | Inr rs \<Rightarrow> rs = [\<lparr>range_min = 13, range_max = 15\<rparr>, \<lparr>range_min = 14, range_max = 26\<rparr>]
                      \<and> getMatchingRange 14 rs = Some \<lparr>range_min = 13, range_max = 15\<rparr>)"
    unfolding p by simp
  from a b c d e f show ?thesis by blast
qed

theorem range_matching_inclusive_first_match_witness:
  "range_min \<lparr>range_min = 13, range_max = 15\<rparr> \<le> range_max \<lparr>range_min = 13, range_max = 15\<rparr>
   \<and> range_min \<lparr>range_min = 14, range_max = 26\<rparr> \<le> range_max \<lparr>range_min = 14, range_max = 26\<rparr>
   \<and> isAmountInRange 14 [\<lparr>range_min = 13, range_max = 15\<rparr>, \<lparr>range_min = 14, range_max = 26\<rparr>]
   \<and> isAmountInRange 13 [\<lparr>range_min = 13, range_max = 15\<rparr>, \<lparr>range_min = 14, range_max = 26\<rparr>]
   \<and> isAmountInRange 26 [\<lparr>range_min = 13, range_max = 15\<rparr>, \<lparr>range_min = 14, range_max = 26\<rparr>]
   \<and> \<not> isAmountInRange (13 - 1 / 1000) [\<lparr>range_min = 13, range_max = 15\<rparr>]
   \<and> \<not> isAmountInRange (15 + 1 / 1000) [\<lparr>range_min = 13, range_max = 15\<rparr>]
   \<and> getMatchingRange 14 [\<lparr>range_min = 13, range_max = 15\<rparr>, \<lparr>range_min = 14, range_max = 26\<rparr>]
       = Some \<lparr>range_min = 13, range_max = 15\<rparr>"
proof -
  have h: "\<forall>r\<in>set [\<lparr>range_min = 13, range_max = 15\<rparr>, \<lparr>range_min = 14, range_max = 26\<rparr>].
       range_min r \<le> range_max r" by simp
  show ?thesis
    using h range_matching_inclusive_first_match [OF h, of 14] by simp
qed

text \<open>
  Claim C10. \<^verbatim>\<open>isAmountInRange\<close> is true exactly when \<^verbatim>\<open>getMatchingRange\<close> returns a
  range, and a returned range is one of the list and contains the amount, bounds
  included.
\<close>

theorem in_range_iff_matching_range:
  "(isAmountInRange amt rs0 \<longleftrightarrow> getMatchingRange amt rs0 \<noteq> None)
   \<and> (\<forall>r. getMatchingRange amt rs0 = Some r \<longrightarrow>
         r \<in> set rs0 \<and> amt \<ge> range_min r \<and> amt \<le> range_max r)"
  by (induction rs0) auto

theorem in_range_iff_matching_range_witness:
  "isAmountInRange 14 [\<lparr>range_min = 13, range_max = 15\<rparr>, \<lparr>range_min = 14, range_max = 26\<rparr>]
   \<and> getMatchingRange 14 [\<lparr>range_min = 13, range_max = 15\<rparr>, \<lparr>range_min = 14, range_max = 26\<rparr>]
       = Some \<lparr>range_min = 13, range_max = 15\<rparr>
   \<and> (13::rat) \<le> 14 \<and> (14::rat) \<le> 15
   \<and> \<not> isAmountInRange 30 [\<lparr>range_min = 13, range_max = 15\<rparr>, \<lparr>range_min = 14, range_max = 26\<rparr>]
   \<and> getMatchingRange 30 [\<lparr>range_min = 13, range_max = 15\<rparr>, \<lparr>range_min = 14, range_max = 26\<rparr>] = None"
  using in_range_iff_matching_range [of 14 "[\<lparr>range_min = 13, range_max = 15\<rparr>, \<lparr>range_min = 14, range_max = 26\<rparr>]"]
        in_range_iff_matching_range [of 30 "[\<lparr>range_min = 13, range_max = 15\<rparr>, \<lparr>range_min = 14, range_max = 26\<rparr>]"]
  by simp

subsection \<open>Loops with a break\<close>

lemma forBreak_Some_iff:
  "forBreak P n i = Some k \<longleftrightarrow> i \<le> k \<and> k < n \<and> P k \<and> (\<forall>j. i \<le> j \<and> j < k \<longrightarrow> \<not> P j)"
proof (induction P n i rule: forBreak.induct)
  case (1 P n i)
  show ?case
  proof (cases "i < n")
    case False
    then show ?thesis by (simp add: forBreak.simps [of P n i])
  next
    case True
    show ?thesis
    proof (cases "P i")
      case Pi: True
      have "(i \<le> k \<and> k < n \<and> P k \<and> (\<forall>j. i \<le> j \<and> j < k \<longrightarrow> \<not> P j)) \<longleftrightarrow> k = i"
        using True Pi by (metis le_neq_implies_less le_refl not_less)
      with True Pi show ?thesis by (auto simp add: forBreak.simps [of P n i])
    next
      case nPi: False
      have "(i \<le> k \<and> k < n \<and> P k \<and> (\<forall>j. i \<le> j \<and> j < k \<longrightarrow> \<not> P j))
            \<longleftrightarrow> (Suc i \<le> k \<and> k < n \<and> P k \<and> (\<forall>j. Suc i \<le> j \<and> j < k \<longrightarrow> \<not> P j))"
        using nPi by (metis Suc_leI le_neq_implies_less Suc_leD)
      moreover have "forBreak P n i = forBreak P n (Suc i)"
        using True nPi by (simp add: forBreak.simps [of P n i])
      ultimately show ?thesis using "1.IH" [OF True nPi] by simp
    qed
  qed
qed

lemma forBreak_None_iff:
  "forBreak P n i = None \<longleftrightarrow> (\<forall>j. i \<le> j \<and> j < n \<longrightarrow> \<not> P j)"
proof (induction P n i rule: forBreak.induct)
  case (1 P n i)
  show ?case
  proof (cases "i < n")
    case False
    then show ?thesis by (auto simp add: forBreak.simps [of P n i])
  next
    case True
    show ?thesis
    proof (cases "P i")
      case Pi: True
      with True show ?thesis by (auto simp add: forBreak.simps [of P n i])
    next
      case nPi: False
      have "(\<forall>j. i \<le> j \<and> j < n \<longrightarrow> \<not> P j) \<longleftrightarrow> (\<forall>j. Suc i \<le> j \<and> j < n \<longrightarrow> \<not> P j)"
        using nPi by (metis Suc_leI le_neq_implies_less Suc_leD)
      moreover have "forBreak P n i = forBreak P n (Suc i)"
        using True nPi by (simp add: forBreak.simps [of P n i])
      ultimately show ?thesis using "1.IH" [OF True nPi] by simp
    qed
  qed
qed

subsection \<open>The scrutiny check\<close>

lemma sol_pos_iff: "(0::rat) < of_int x / LAMPORTS_PER_SOL \<longleftrightarrow> 0 < x"
  by (simp add: LAMPORTS_PER_SOL_def)

lemma findInflow_found_iff:
  "fst (findInflow addresses pre post recipient) \<longleftrightarrow>
     (\<exists>i<length addresses. addresses ! i = recipient \<and> balanceAt pre i < balanceAt post i)"
proof -
  let ?P = "\<lambda>i. addresses ! i = recipient \<and> balanceAt pre i < balanceAt post i"
  have eq: "(\<lambda>i. addresses ! i = recipient \<and>
                  of_int (balanceAt post i - balanceAt pre i) / LAMPORTS_PER_SOL > (0::rat)) = ?P"
    by (simp add: sol_pos_iff del: of_int_diff)
  show ?thesis
  proof (cases "forBreak ?P (length addresses) 0")
    case None
    then have "\<forall>j<length addresses. \<not> ?P j" by (simp add: forBreak_None_iff)
    moreover have "\<not> fst (findInflow addresses pre post recipient)"
      unfolding findInflow_def eq using None by simp
    ultimately show ?thesis by blast
  next
    case (Some k)
    then have "k < length addresses \<and> ?P k" by (simp add: forBreak_Some_iff)
    moreover have "fst (findInflow addresses pre post recipient)"
      unfolding findInflow_def eq using Some by simp
    ultimately show ?thesis by blast
  qed
qed

lemma scrutiny_pk_error:
  "newPublicKey connection recipient = Some e \<Longrightarrow>
   performScrutinyCheck connection recipient cex lbl = scrutinyError e"
  by (simp add: performScrutinyCheck_def scrutinyBody_def)

lemma scrutiny_sig_error:
  "newPublicKey connection recipient = None \<Longrightarrow>
   getSignaturesForAddress connection recipient = Inl e \<Longrightarrow>
   performScrutinyCheck connection recipient cex lbl = scrutinyError e"
  by (simp add: performScrutinyCheck_def scrutinyBody_def)

lemma scrutiny_no_history:
  "newPublicKey connection recipient = None \<Longrightarrow>
   getSignaturesForAddress connection recipient = Inr [] \<Longrightarrow>
   performScrutinyCheck connection recipient cex lbl =
     \<lparr>alertTriggered = True, condition = FIRST_TIME_ACTIVITY,
      previousInflowSource = None, previousInflowSignature = None,
      explanation = ''No previous transaction history found for recipient''\<rparr>"
  by (simp add: performScrutinyCheck_def scrutinyBody_def)

lemma scrutiny_fetch_error:
  "newPublicKey connection recipient = None \<Longrightarrow>
   getSignaturesForAddress connection recipient = Inr (prev # rest) \<Longrightarrow>
   getParsedTransaction connection prev = Inl e \<Longrightarrow>
   performScrutinyCheck connection recipient cex lbl = scrutinyError e"
  by (simp add: performScrutinyCheck_def scrutinyBody_def)

lemma scrutiny_unparseable:
  "newPublicKey connection recipient = None \<Longrightarrow>
   getSignaturesForAddress connection recipient = Inr (prev # rest) \<Longrightarrow>
   getParsedTransaction connection prev = Inr txo \<Longrightarrow>
   txo = None \<or> (\<exists>tx. txo = Some tx \<and> meta tx = None) \<Longrightarrow>
   performScrutinyCheck connection recipient cex lbl =
     \<lparr>alertTriggered = False, condition = NONE,
      previousInflowSource = None, previousInflowSignature = None,
      explanation = ''Could not parse previous transaction''\<rparr>"
  by (auto simp add: performScrutinyCheck_def scrutinyBody_def)

lemma scrutiny_parsed:
  "newPublicKey connection recipient = None \<Longrightarrow>
   getSignaturesForAddress connection recipient = Inr (prev # rest) \<Longrightarrow>
   getParsedTransaction connection prev = Inr (Some tx) \<Longrightarrow>
   meta tx = Some m \<Longrightarrow>
   findInflow (map entryAddress (orEmpty (message_accountKeys tx)))
     (orEmpty (preBalances m)) (orEmpty (postBalances m)) recipient = (found, src) \<Longrightarrow>
   performScrutinyCheck connection recipient cex lbl =
     (if \<not> found then
        \<lparr>alertTriggered = True, condition = FIRST_TIME_ACTIVITY,
         previousInflowSource = None, previousInflowSignature = Some prev,
         explanation = ''No inflow detected in previous transaction''\<rparr>
      else if src = cex then
        \<lparr>alertTriggered = True, condition = LOOP_DETECTED,
         previousInflowSource = Some src, previousInflowSignature = Some prev,
         explanation = lbl @ '' '' @ arrow @ '' Recipient '' @ arrow @ '' '' @ lbl
                       @ '' (Loop detected)''\<rparr>
      else
        \<lparr>alertTriggered = False, condition = NONE,
         previousInflowSource = Some src, previousInflowSignature = Some prev,
         explanation = ''Previous inflow from '' @ formatAddressShort src
                       @ '', no loop detected''\<rparr>)"
  by (simp add: performScrutinyCheck_def scrutinyBody_def)

lemma stubNode_sel:
  "newPublicKey (stubNode sigs tx) a = None"
  "getSignaturesForAddress (stubNode sigs tx) a = sigs"
  "getParsedTransaction (stubNode sigs tx) s = tx"
  "getParsedTransaction2 (stubNode sigs tx) s = tx"
  by (simp_all add: stubNode_def)

text \<open>
  Claim C1. The verdict of the scrutiny check, for a recipient and a paying wallet
  \<open>cex\<close>: no prior signature gives \<open>FIRST_TIME_ACTIVITY\<close> with the alert triggered; a
  prior transaction in which no account entry of the recipient gained balance gives
  \<open>FIRST_TIME_ACTIVITY\<close> with the alert triggered; an inflow whose identified source is
  \<open>cex\<close> gives \<open>LOOP_DETECTED\<close> with the alert triggered; an inflow with any other
  identified source, and every failing lookup, gives \<open>NONE\<close> without alert.
\<close>

theorem scrutiny_verdicts:
  "let R = performScrutinyCheck connection recipient cex lbl in
   (newPublicKey connection recipient = None
      \<and> getSignaturesForAddress connection recipient = Inr []
      \<longrightarrow> condition R = FIRST_TIME_ACTIVITY \<and> alertTriggered R)
   \<and> (\<forall>prev rest tx m.
        newPublicKey connection recipient = None
        \<and> getSignaturesForAddress connection recipient = Inr (prev # rest)
        \<and> getParsedTransaction connection prev = Inr (Some tx)
        \<and> meta tx = Some m \<longrightarrow>
        (let addresses = map entryAddress (orEmpty (message_accountKeys tx));
             pre = orEmpty (preBalances m);
             post = orEmpty (postBalances m);
             inflow = (\<exists>i<length addresses.
                         addresses ! i = recipient \<and> balanceAt pre i < balanceAt post i);
             source = snd (findInflow addresses pre post recipient)
         in (\<not> inflow \<longrightarrow> condition R = FIRST_TIME_ACTIVITY \<and> alertTriggered R)
          \<and> (inflow \<and> source = cex \<longrightarrow> condition R = LOOP_DETECTED \<and> alertTriggered R)
          \<and> (inflow \<and> source \<noteq> cex \<longrightarrow> condition R = NONE \<and> \<not> alertTriggered R)))
   \<and> ((\<exists>e. newPublicKey connection recipient = Some e)
        \<or> (\<exists>e. getSignaturesForAddress connection recipient = Inl e)
        \<or> (\<exists>prev rest. getSignaturesForAddress connection recipient = Inr (prev # rest)
              \<and> ((\<exists>e. getParsedTransaction connection prev = Inl e)
                  \<or> getParsedTransaction connection prev = Inr None
                  \<or> (\<exists>tx. getParsedTransaction connection prev = Inr (Some tx) \<and> meta tx = None)))
      \<longrightarrow> condition R = NONE \<and> \<not> alertTriggered R)"
proof -
  let ?R = "performScrutinyCheck connection recipient cex lbl"
  have a: "newPublicKey connection recipient = None
      \<and> getSignaturesForAddress connection recipient = Inr []
      \<longrightarrow> condition ?R = FIRST_TIME_ACTIVITY \<and> alertTriggered ?R"
    by (simp add: scrutiny_no_history)
  have b: "(let addresses = map entryAddress (orEmpty (message_accountKeys tx));
             pre = orEmpty (preBalances m);
             post = orEmpty (postBalances m);
             inflow = (\<exists>i<length addresses.
                         addresses ! i = recipient \<and> balanceAt pre i < balanceAt post i);
             source = snd (findInflow addresses pre post recipient)
         in (\<not> inflow \<longrightarrow> condition ?R = FIRST_TIME_ACTIVITY \<and> alertTriggered ?R)
          \<and> (inflow \<and> source = cex \<longrightarrow> condition ?R = LOOP_DETECTED \<and> alertTriggered ?R)
          \<and> (inflow \<and> source \<noteq> cex \<longrightarrow> condition ?R = NONE \<and> \<not> alertTriggered ?R))"
    if h: "newPublicKey connection recipient = None"
          "getSignaturesForAddress connection recipient = Inr (prev # rest)"
          "getParsedTransaction connection prev = Inr (Some tx)"
          "meta tx = Some m"
    for prev rest tx m
  proof -
    obtain found src where fs:
      "findInflow (map entryAddress (orEmpty (message_accountKeys tx)))
         (orEmpty (preBalances m)) (orEmpty (postBalances m)) recipient = (found, src)"
      by (cases "findInflow (map entryAddress (orEmpty (message_accountKeys tx)))
         (orEmpty (preBalances m)) (orEmpty (postBalances m)) recipient") blast
    have found: "found \<longleftrightarrow> (\<exists>i<length (map entryAddress (orEmpty (message_accountKeys tx))).
         map entryAddress (orEmpty (message_accountKeys tx)) ! i = recipient
         \<and> balanceAt (orEmpty (preBalances m)) i < balanceAt (orEmpty (postBalances m)) i)"
      using findInflow_found_iff [of "map entryAddress (orEmpty (message_accountKeys tx))"
          "orEmpty (preBalances m)" "orEmpty (postBalances m)" recipient]
      by (simp only: fs fst_conv)
    show ?thesis
      unfolding Let_def found [symmetric] fs snd_conv
      by (simp add: scrutiny_parsed [OF h fs])
  qed
  have c: "(\<exists>e. newPublicKey connection recipient = Some e)
        \<or> (\<exists>e. getSignaturesForAddress connection recipient = Inl e)
        \<or> (\<exists>prev rest. getSignaturesForAddress connection recipient = Inr (prev # rest)
              \<and> ((\<exists>e. getParsedTransaction connection prev = Inl e)
                  \<or> getParsedTransaction connection prev = Inr None
                  \<or> (\<exists>tx. getParsedTransaction connection prev = Inr (Some tx) \<and> meta tx = None)))
      \<longrightarrow> condition ?R = NONE \<and> \<not> alertTriggered ?R"
  proof (cases "newPublicKey connection recipient")
    case (Some e)
    then show ?thesis by (simp add: scrutiny_pk_error scrutinyError_def)
  next
    case None
    then show ?thesis
      by (auto simp add: scrutiny_sig_error scrutiny_fetch_error scrutinyError_def
            scrutiny_unparseable)
  qed
  show ?thesis unfolding Let_def [of ?R] using a b c by blast
qed


theorem scrutiny_verdicts_witness:
  "getSignaturesForAddress (stubNode (Inr []) (Inr None)) ''R'' = Inr []
   \<and> condition (performScrutinyCheck (stubNode (Inr []) (Inr None)) ''R'' ''CEX'' ''OKX'')
       = FIRST_TIME_ACTIVITY
   \<and> alertTriggered (performScrutinyCheck (stubNode (Inr []) (Inr None)) ''R'' ''CEX'' ''OKX'')
   \<and> getParsedTransaction (stubNode (Inr [''prev'']) (Inr (Some exactTransferTx))) ''prev''
       = Inr (Some exactTransferTx)
   \<and> findInflow [''CEX'', ''R'', ''FEE''] [5000000000, 0, 10000] [4000000000, 1000000000, 5000] ''R''
       = (True, ''CEX'')
   \<and> condition (performScrutinyCheck (stubNode (Inr [''prev'']) (Inr (Some exactTransferTx)))
        ''R'' ''CEX'' ''OKX'') = LOOP_DETECTED
   \<and> alertTriggered (performScrutinyCheck (stubNode (Inr [''prev'']) (Inr (Some exactTransferTx)))
        ''R'' ''CEX'' ''OKX'')
   \<and> condition (performScrutinyCheck (stubNode (Inr [''prev'']) (Inr (Some exactTransferTx)))
        ''R'' ''KUCOIN'' ''KC'') = NONE
   \<and> \<not> alertTriggered (performScrutinyCheck (stubNode (Inr [''prev'']) (Inr (Some exactTransferTx)))
        ''R'' ''KUCOIN'' ''KC'')
   \<and> condition (performScrutinyCheck (stubNode (Inr [''prev'']) (Inr (Some exactTransferTx)))
        ''FEE'' ''CEX'' ''OKX'') = FIRST_TIME_ACTIVITY
   \<and> condition (performScrutinyCheck (stubNode (Inl (JsError ''timeout'')) (Inr None))
        ''R'' ''CEX'' ''OKX'') = NONE"
proof -
  let ?A = "[''CEX'', ''R'', ''FEE'']"
  let ?P = "[5000000000, 0, 10000] :: int list"
  let ?Q = "[4000000000, 1000000000, 5000] :: int list"
  let ?m = "\<lparr>preBalances = Some ?P, postBalances = Some ?Q\<rparr>"
  let ?n = "stubNode (Inr [''prev'']) (Inr (Some exactTransferTx))"
  have f: "findInflow ?A ?P ?Q ''R'' = (True, ''CEX'')"
    by code_simp
  have g: "findInflow ?A ?P ?Q ''FEE'' = (False, ''UNKNOWN'')"
    by code_simp
  have inR: "\<exists>i<length ?A. ?A ! i = ''R'' \<and> balanceAt ?P i < balanceAt ?Q i"
    using findInflow_found_iff [of ?A ?P ?Q "''R''"] unfolding f fst_conv by blast
  have inF: "\<not> (\<exists>i<length ?A. ?A ! i = ''FEE'' \<and> balanceAt ?P i < balanceAt ?Q i)"
    using findInflow_found_iff [of ?A ?P ?Q "''FEE''"] unfolding g fst_conv by blast
  have pre: "newPublicKey ?n recipient = None
        \<and> getSignaturesForAddress ?n recipient = Inr (''prev'' # [])
        \<and> getParsedTransaction ?n ''prev'' = Inr (Some exactTransferTx)
        \<and> meta exactTransferTx = Some ?m" for recipient
    by (simp add: stubNode_sel exactTransferTx_def)
  have addr: "map entryAddress (orEmpty (message_accountKeys exactTransferTx)) = ?A"
             "orEmpty (preBalances ?m) = ?P" "orEmpty (postBalances ?m) = ?Q"
    by (simp_all add: exactTransferTx_def orEmpty_def)
  note parsed = scrutiny_verdicts [unfolded Let_def, THEN conjunct2, THEN conjunct1, rule_format,
                  OF pre, unfolded addr]
  have none: "newPublicKey (stubNode (Inr []) (Inr None)) ''R'' = None
      \<and> getSignaturesForAddress (stubNode (Inr []) (Inr None)) ''R'' = Inr []"
    by (simp add: stubNode_sel)
  have err: "\<exists>e. getSignaturesForAddress (stubNode (Inl (JsError ''timeout'')) (Inr None)) ''R''
               = Inl e"
    by (simp add: stubNode_sel)
  have 1: "condition (performScrutinyCheck (stubNode (Inr []) (Inr None)) ''R'' ''CEX'' ''OKX'')
             = FIRST_TIME_ACTIVITY
           \<and> alertTriggered (performScrutinyCheck (stubNode (Inr []) (Inr None)) ''R'' ''CEX'' ''OKX'')"
    using scrutiny_verdicts [of "stubNode (Inr []) (Inr None)" "''R''" "''CEX''" "''OKX''",
            unfolded Let_def, THEN conjunct1] none by blast
  have 2: "condition (performScrutinyCheck ?n ''R'' ''CEX'' ''OKX'') = LOOP_DETECTED
           \<and> alertTriggered (performScrutinyCheck ?n ''R'' ''CEX'' ''OKX'')"
    using parsed [of "''R''" "''CEX''" "''OKX''"] inR unfolding f snd_conv by blast
  have 3: "condition (performScrutinyCheck ?n ''R'' ''KUCOIN'' ''KC'') = NONE
           \<and> \<not> alertTriggered (performScrutinyCheck ?n ''R'' ''KUCOIN'' ''KC'')"
  proof -
    have "''CEX'' \<noteq> ''KUCOIN''" by simp
    with parsed [of "''R''" "''KUCOIN''" "''KC''"] inR show ?thesis
      unfolding f snd_conv by blast
  qed
  have 4: "condition (performScrutinyCheck ?n ''FEE'' ''CEX'' ''OKX'') = FIRST_TIME_ACTIVITY"
    using parsed [of "''FEE''" "''CEX''" "''OKX''"] inF by blast
  have 5: "condition (performScrutinyCheck (stubNode (Inl (JsError ''timeout'')) (Inr None))
        ''R'' ''CEX'' ''OKX'') = NONE"
    using scrutiny_verdicts [of "stubNode (Inl (JsError ''timeout'')) (Inr None)" "''R''"
            "''CEX''" "''OKX''", unfolded Let_def, THEN conjunct2, THEN conjunct2] err
    by blast
  from 1 2 3 4 5 f none pre [of "''R''"] show ?thesis by (simp only: simp_thms)
qed

text \<open>
  Claim C4. When a step of the scrutiny check fails (the address is no public key, the
  signature lookup throws, the fetch of the previous transaction throws or returns
  nothing, or the transaction has no \<^verbatim>\<open>meta\<close>), \<^verbatim>\<open>performScrutinyCheck\<close> still returns
  a result: the condition is \<open>NONE\<close>, the alert is not triggered and the explanation is
  not empty.
\<close>

theorem scrutiny_failures_degrade:
  "let R = performScrutinyCheck connection recipient cex lbl in
   ((\<exists>e. newPublicKey connection recipient = Some e)
    \<or> (newPublicKey connection recipient = None
        \<and> (\<exists>e. getSignaturesForAddress connection recipient = Inl e))
    \<or> (newPublicKey connection recipient = None
        \<and> (\<exists>prev rest. getSignaturesForAddress connection recipient = Inr (prev # rest)
              \<and> ((\<exists>e. getParsedTransaction connection prev = Inl e)
                  \<or> getParsedTransaction connection prev = Inr None
                  \<or> (\<exists>tx. getParsedTransaction connection prev = Inr (Some tx)
                        \<and> meta tx = None)))))
   \<longrightarrow> condition R = NONE \<and> \<not> alertTriggered R \<and> explanation R \<noteq> []"
proof (cases "newPublicKey connection recipient")
  case (Some e)
  then show ?thesis by (simp add: scrutiny_pk_error scrutinyError_def)
next
  case None
  then show ?thesis
    by (auto simp add: Let_def scrutiny_sig_error scrutiny_fetch_error scrutinyError_def
          scrutiny_unparseable)
qed

theorem scrutiny_failures_degrade_witness:
  "getSignaturesForAddress (stubNode (Inl (JsError ''timeout'')) (Inr None)) ''R''
     = Inl (JsError ''timeout'')
   \<and> performScrutinyCheck (stubNode (Inl (JsError ''timeout'')) (Inr None)) ''R'' ''CEX'' ''OKX''
     = \<lparr>alertTriggered = False, condition = NONE, previousInflowSource = None,
        previousInflowSignature = None,
        explanation = ''Error during scrutiny check: timeout''\<rparr>
   \<and> condition (performScrutinyCheck (stubNode (Inr [''prev'']) (Inl NonError)) ''R'' ''CEX'' ''OKX'')
     = NONE
   \<and> explanation (performScrutinyCheck (stubNode (Inr [''prev'']) (Inl NonError)) ''R'' ''CEX'' ''OKX'')
     \<noteq> []
   \<and> \<not> alertTriggered (performScrutinyCheck (stubNode (Inr [''prev'']) (Inr None)) ''R'' ''CEX'' ''OKX'')
   \<and> explanation (performScrutinyCheck (stubNode (Inr [''prev''])
        (Inr (Some (exactTransferTx\<lparr>meta := None\<rparr>)))) ''R'' ''CEX'' ''OKX'') \<noteq> []"
proof -
  have e: "performScrutinyCheck (stubNode (Inl (JsError ''timeout'')) (Inr None)) ''R'' ''CEX'' ''OKX''
     = \<lparr>alertTriggered = False, condition = NONE, previousInflowSource = None,
        previousInflowSignature = None,
        explanation = ''Error during scrutiny check: timeout''\<rparr>"
    by (simp add: performScrutinyCheck_def scrutinyBody_def stubNode_sel scrutinyError_def)
  show ?thesis
    using scrutiny_failures_degrade
            [of "stubNode (Inl (JsError ''timeout'')) (Inr None)" "''R''" "''CEX''" "''OKX''"]
          scrutiny_failures_degrade
            [of "stubNode (Inr [''prev'']) (Inl NonError)" "''R''" "''CEX''" "''OKX''"]
          scrutiny_failures_degrade
            [of "stubNode (Inr [''prev'']) (Inr None)" "''R''" "''CEX''" "''OKX''"]
          scrutiny_failures_degrade
            [of "stubNode (Inr [''prev'']) (Inr (Some (exactTransferTx\<lparr>meta := None\<rparr>)))"
                "''R''" "''CEX''" "''OKX''"]
    by (simp add: Let_def stubNode_sel e exactTransferTx_def)
qed

text \<open>
  Claim C5. The source identification of the scrutiny check is compared with the
  recipient heuristic run in reverse with its tolerance of 1/10,000 of a unit. On the
  transfer \<open>feeTransferTx\<close> they differ: the code asks for a decrease exactly equal to
  the inflow and answers \<^verbatim>\<open>UNKNOWN\<close>, the heuristic with the tolerance answers
  \<^verbatim>\<open>CEX\<close>. The recipient loop of the coordinator pairs the same two accounts, and the
  scrutiny check of that transfer reports no loop for the wallet \<^verbatim>\<open>CEX\<close>.
\<close>

theorem inflow_source_exact_match_misses_fee_payer:
  "findInflow [''CEX'', ''R''] [2000005000, 0] [1000000000, 1000000000] ''R'' = (True, ''UNKNOWN'')
   \<and> spec_inflowSource [''CEX'', ''R''] [2000005000, 0] [1000000000, 1000000000] 1 1 = Some ''CEX''
   \<and> findRecipient [''CEX'', ''R''] [2000005000, 0] [1000000000, 1000000000] 0 (200001 / 200000)
       = Some ''R''
   \<and> performScrutinyCheck (stubNode (Inr [''prev'']) (Inr (Some feeTransferTx))) ''R'' ''CEX'' ''OKX''
       = \<lparr>alertTriggered = False, condition = NONE, previousInflowSource = Some ''UNKNOWN'',
          previousInflowSignature = Some ''prev'',
          explanation = ''Previous inflow from UNKN...NOWN, no loop detected''\<rparr>"
proof -
  have a: "findInflow [''CEX'', ''R''] [2000005000, 0] [1000000000, 1000000000] ''R'' = (True, ''UNKNOWN'')"
    by code_simp
  have b: "spec_inflowSource [''CEX'', ''R''] [2000005000, 0] [1000000000, 1000000000] 1 1 = Some ''CEX''"
    by code_simp
  have c: "findRecipient [''CEX'', ''R''] [2000005000, 0] [1000000000, 1000000000] 0 (200001 / 200000)
       = Some ''R''"
    by code_simp
  have d: "performScrutinyCheck (stubNode (Inr [''prev'']) (Inr (Some feeTransferTx))) ''R'' ''CEX'' ''OKX''
       = \<lparr>alertTriggered = False, condition = NONE, previousInflowSource = Some ''UNKNOWN'',
          previousInflowSignature = Some ''prev'',
          explanation = ''Previous inflow from UNKN...NOWN, no loop detected''\<rparr>"
    by code_simp
  from a b c d show ?thesis by (simp only: simp_thms)
qed

subsection \<open>The coordinator\<close>













subsection \<open>The transaction analyzer\<close>

lemma analyzeBalances_eq:
  "analyzeBalances addresses pre post i (outgoing, incoming) =
     (outgoing @ map (\<lambda>k. \<lparr>transfer_from = addresses ! k, transfer_to = ''multiple'',
                           amount = of_int (balanceAt pre k - balanceAt post k) / LAMPORTS_PER_SOL\<rparr>)
                     (filter (\<lambda>k. 0 < of_int (balanceAt pre k - balanceAt post k) / LAMPORTS_PER_SOL)
                        [i..<length addresses]),
      incoming @ map (\<lambda>k. \<lparr>transfer_from = ''multiple'', transfer_to = addresses ! k,
                           amount = \<bar>of_int (balanceAt pre k - balanceAt post k) / LAMPORTS_PER_SOL\<bar>\<rparr>)
                     (filter (\<lambda>k. of_int (balanceAt pre k - balanceAt post k) / LAMPORTS_PER_SOL < 0)
                        [i..<length addresses]))"
proof (induction "length addresses - i" arbitrary: i outgoing incoming)
  case 0
  then have "\<not> i < length addresses" by simp
  then show ?case by (simp add: analyzeBalances.simps [of addresses pre post i])
next
  case (Suc n)
  then have lt: "i < length addresses" and n: "n = length addresses - Suc i" by simp_all
  have upt: "[i..<length addresses] = i # [Suc i..<length addresses]"
    using lt by (simp add: upt_conv_Cons)
  show ?case
    unfolding analyzeBalances.simps [of addresses pre post i] upt
    using lt by (simp add: Let_def Suc.hyps(1) [OF n] del: of_int_diff)
qed

lemma mapThrowing_pubkeys:
  "\<forall>k\<in>set keys. \<exists>s. k = PubkeyObject s \<Longrightarrow>
   mapThrowing pubkeyToBase58 keys = Inr (map entryAddress keys)"
  by (induction keys) auto

lemma mapThrowing_bad_key:
  "k \<in> set keys \<Longrightarrow> \<forall>s. k \<noteq> PubkeyObject s \<Longrightarrow>
   \<exists>e. mapThrowing pubkeyToBase58 keys = Inl e"
proof (induction keys)
  case Nil
  then show ?case by simp
next
  case (Cons x xs)
  show ?case
  proof (cases "pubkeyToBase58 x")
    case (Inl e)
    then show ?thesis by simp
  next
    case (Inr a)
    then have "\<exists>s. x = PubkeyObject s" by (cases x) auto
    with Cons.prems have "k \<in> set xs" by auto
    from Cons.IH [OF this Cons.prems(2)] Inr show ?thesis by auto
  qed
qed

text \<open>
  Against claim C6 as stated: a transaction that is found but has no \<^verbatim>\<open>meta\<close> is not
  answered with none. \<^verbatim>\<open>tx.meta?.preBalances || []\<close> reads its balances as empty and
  the analysis is returned, without transfers.
\<close>

theorem analyzer_without_meta_counterexample:
  "getParsedTransaction (stubNode (Inr []) (Inr (Some (exactTransferTx\<lparr>meta := None\<rparr>)))) ''sig''
     = Inr (Some (exactTransferTx\<lparr>meta := None\<rparr>))
   \<and> meta (exactTransferTx\<lparr>meta := None\<rparr>) = None
   \<and> fetchAndParseTransaction (stubNode (Inr []) (Inr (Some (exactTransferTx\<lparr>meta := None\<rparr>)))) ''sig''
     = Some \<lparr>signature = ''sig'', timestamp = Some 1700000000, outgoingTransfers = [],
             incomingTransfers = [], accountKeys = [''CEX'', ''R'', ''FEE'']\<rparr>"
  by code_simp

text \<open>
  Claim C6, amended. \<^verbatim>\<open>fetchAndParseTransaction\<close> never throws. It returns none when
  the fetch throws, when the transaction is not found and when the account keys cannot
  be converted. For every other transaction it returns an analysis in which, for each
  address index, \<open>delta = (preBalance - postBalance) / LAMPORTS_PER_SOL\<close> with absent
  balances read as zero, an index with \<open>delta > 0\<close> is recorded, in index order, as an
  outgoing transfer from its address and an index with \<open>delta < 0\<close> as an incoming
  transfer of \<open>|delta|\<close> to its address. A transaction without \<^verbatim>\<open>meta\<close> is analysed
  with all balances zero: the analysis has no transfers.
\<close>

theorem analyzer_result:
  "((\<exists>e. getParsedTransaction connection sig = Inl e) \<or> getParsedTransaction connection sig = Inr None
      \<longrightarrow> fetchAndParseTransaction connection sig = None)
   \<and> (\<forall>tx. getParsedTransaction connection sig = Inr (Some tx)
         \<and> (message_accountKeys tx = None
            \<or> (\<exists>keys k. message_accountKeys tx = Some keys \<and> k \<in> set keys
                  \<and> (\<forall>s. k \<noteq> PubkeyObject s)))
         \<longrightarrow> fetchAndParseTransaction connection sig = None)
   \<and> (\<forall>tx keys. getParsedTransaction connection sig = Inr (Some tx)
         \<and> message_accountKeys tx = Some keys \<and> (\<forall>k\<in>set keys. \<exists>s. k = PubkeyObject s)
         \<longrightarrow>
         (let addresses = map entryAddress keys;
              pre = (case meta tx of None \<Rightarrow> [] | Some m \<Rightarrow> orEmpty (preBalances m));
              post = (case meta tx of None \<Rightarrow> [] | Some m \<Rightarrow> orEmpty (postBalances m));
              delta = (\<lambda>i. of_int (balanceAt pre i - balanceAt post i) / LAMPORTS_PER_SOL)
          in fetchAndParseTransaction connection sig =
               Some \<lparr>signature = sig, timestamp = truthyTime (blockTime tx),
                     outgoingTransfers =
                       map (\<lambda>i. \<lparr>transfer_from = addresses ! i, transfer_to = ''multiple'',
                                  amount = delta i\<rparr>)
                           (filter (\<lambda>i. 0 < delta i) [0..<length addresses]),
                     incomingTransfers =
                       map (\<lambda>i. \<lparr>transfer_from = ''multiple'', transfer_to = addresses ! i,
                                  amount = \<bar>delta i\<bar>\<rparr>)
                           (filter (\<lambda>i. delta i < 0) [0..<length addresses]),
                     accountKeys = addresses\<rparr>))
   \<and> (\<forall>tx keys. getParsedTransaction connection sig = Inr (Some tx)
         \<and> message_accountKeys tx = Some keys \<and> (\<forall>k\<in>set keys. \<exists>s. k = PubkeyObject s)
         \<and> meta tx = None
         \<longrightarrow> fetchAndParseTransaction connection sig =
               Some \<lparr>signature = sig, timestamp = truthyTime (blockTime tx),
                     outgoingTransfers = [], incomingTransfers = [],
                     accountKeys = map entryAddress keys\<rparr>)"
proof -
  have a: "(\<exists>e. getParsedTransaction connection sig = Inl e) \<or> getParsedTransaction connection sig = Inr None
      \<longrightarrow> fetchAndParseTransaction connection sig = None"
    by (auto simp add: fetchAndParseTransaction_def parseTransaction_def)
  have b: "fetchAndParseTransaction connection sig = None"
    if h: "getParsedTransaction connection sig = Inr (Some tx)
         \<and> (message_accountKeys tx = None
            \<or> (\<exists>keys k. message_accountKeys tx = Some keys \<and> k \<in> set keys
                  \<and> (\<forall>s. k \<noteq> PubkeyObject s)))" for tx
  proof (cases "message_accountKeys tx")
    case None
    with h show ?thesis by (simp add: fetchAndParseTransaction_def parseTransaction_def)
  next
    case (Some keys)
    with h obtain k where "k \<in> set keys" "\<forall>s. k \<noteq> PubkeyObject s" by auto
    from mapThrowing_bad_key [OF this] obtain e where "mapThrowing pubkeyToBase58 keys = Inl e" ..
    with h Some show ?thesis by (simp add: fetchAndParseTransaction_def parseTransaction_def)
  qed
  have c: "(let addresses = map entryAddress keys;
              pre = (case meta tx of None \<Rightarrow> [] | Some m \<Rightarrow> orEmpty (preBalances m));
              post = (case meta tx of None \<Rightarrow> [] | Some m \<Rightarrow> orEmpty (postBalances m));
              delta = (\<lambda>i. of_int (balanceAt pre i - balanceAt post i) / LAMPORTS_PER_SOL)
          in fetchAndParseTransaction connection sig =
               Some \<lparr>signature = sig, timestamp = truthyTime (blockTime tx),
                     outgoingTransfers =
                       map (\<lambda>i. \<lparr>transfer_from = addresses ! i, transfer_to = ''multiple'',
                                  amount = delta i\<rparr>)
                           (filter (\<lambda>i. 0 < delta i) [0..<length addresses]),
                     incomingTransfers =
                       map (\<lambda>i. \<lparr>transfer_from = ''multiple'', transfer_to = addresses ! i,
                                  amount = \<bar>delta i\<bar>\<rparr>)
                           (filter (\<lambda>i. delta i < 0) [0..<length addresses]),
                     accountKeys = addresses\<rparr>)"
    if h: "getParsedTransaction connection sig = Inr (Some tx)
         \<and> message_accountKeys tx = Some keys \<and> (\<forall>k\<in>set keys. \<exists>s. k = PubkeyObject s)"
    for tx keys
  proof -
    from h have m: "mapThrowing pubkeyToBase58 keys = Inr (map entryAddress keys)"
      by (intro mapThrowing_pubkeys) simp
    show ?thesis
      using h unfolding Let_def fetchAndParseTransaction_def parseTransaction_def
      by (simp add: m analyzeBalances_eq del: of_int_diff)
  qed
  have d: "fetchAndParseTransaction connection sig =
               Some \<lparr>signature = sig, timestamp = truthyTime (blockTime tx),
                     outgoingTransfers = [], incomingTransfers = [],
                     accountKeys = map entryAddress keys\<rparr>"
    if h: "getParsedTransaction connection sig = Inr (Some tx)
         \<and> message_accountKeys tx = Some keys \<and> (\<forall>k\<in>set keys. \<exists>s. k = PubkeyObject s)
         \<and> meta tx = None"
    for tx keys
  proof -
    from h have h': "getParsedTransaction connection sig = Inr (Some tx)
         \<and> message_accountKeys tx = Some keys \<and> (\<forall>k\<in>set keys. \<exists>s. k = PubkeyObject s)"
      by simp
    from h have mt: "meta tx = None" by simp
    show ?thesis using c [OF h'] unfolding Let_def mt
      by (simp add: balanceAt_def)
  qed
  show ?thesis
    apply (intro conjI a allI impI)
      apply (erule b)
     apply (erule c)
    apply (erule d)
    done
qed


theorem analyzer_result_witness:
  "getParsedTransaction (stubNode (Inr []) (Inr None)) ''sig'' = Inr None
   \<and> fetchAndParseTransaction (stubNode (Inr []) (Inr None)) ''sig'' = None
   \<and> fetchAndParseTransaction (stubNode (Inr []) (Inl NonError)) ''sig'' = None
   \<and> fetchAndParseTransaction
        (stubNode (Inr []) (Inr (Some (exactTransferTx\<lparr>message_accountKeys := Some [KeyString ''CEX'']\<rparr>))))
        ''sig'' = None
   \<and> message_accountKeys exactTransferTx
       = Some [PubkeyObject ''CEX'', PubkeyObject ''R'', PubkeyObject ''FEE'']
   \<and> fetchAndParseTransaction (stubNode (Inr []) (Inr (Some exactTransferTx))) ''sig''
       = Some \<lparr>signature = ''sig'', timestamp = Some 1700000000,
               outgoingTransfers =
                 [\<lparr>transfer_from = ''CEX'', transfer_to = ''multiple'', amount = 1\<rparr>,
                  \<lparr>transfer_from = ''FEE'', transfer_to = ''multiple'', amount = 1 / 200000\<rparr>],
               incomingTransfers =
                 [\<lparr>transfer_from = ''multiple'', transfer_to = ''R'', amount = 1\<rparr>],
               accountKeys = [''CEX'', ''R'', ''FEE'']\<rparr>
   \<and> fetchAndParseTransaction (stubNode (Inr []) (Inr (Some (exactTransferTx\<lparr>meta := None\<rparr>)))) ''sig''
       = Some \<lparr>signature = ''sig'', timestamp = Some 1700000000, outgoingTransfers = [],
               incomingTransfers = [], accountKeys = [''CEX'', ''R'', ''FEE'']\<rparr>"
proof -
  let ?K = "[PubkeyObject ''CEX'', PubkeyObject ''R'', PubkeyObject ''FEE'']"
  have k: "message_accountKeys exactTransferTx = Some ?K"
    by (simp add: exactTransferTx_def)
  have allk: "\<forall>k\<in>set ?K. \<exists>s. k = PubkeyObject s" by simp
  have 1: "fetchAndParseTransaction (stubNode (Inr []) (Inr None)) ''sig'' = None"
    using analyzer_result [of "stubNode (Inr []) (Inr None)" "''sig''", THEN conjunct1]
    by (simp add: stubNode_sel)
  have 2: "fetchAndParseTransaction (stubNode (Inr []) (Inl NonError)) ''sig'' = None"
    using analyzer_result [of "stubNode (Inr []) (Inl NonError)" "''sig''", THEN conjunct1]
    by (simp add: stubNode_sel)
  have p3: "getParsedTransaction
              (stubNode (Inr []) (Inr (Some (exactTransferTx\<lparr>message_accountKeys := Some [KeyString ''CEX'']\<rparr>))))
              ''sig'' = Inr (Some (exactTransferTx\<lparr>message_accountKeys := Some [KeyString ''CEX'']\<rparr>))
         \<and> (message_accountKeys (exactTransferTx\<lparr>message_accountKeys := Some [KeyString ''CEX'']\<rparr>) = None
            \<or> (\<exists>keys k. message_accountKeys (exactTransferTx\<lparr>message_accountKeys := Some [KeyString ''CEX'']\<rparr>)
                    = Some keys \<and> k \<in> set keys \<and> (\<forall>s. k \<noteq> PubkeyObject s)))"
    by (simp add: stubNode_sel)
  note 3 = analyzer_result [THEN conjunct2, THEN conjunct1, rule_format, OF p3]
  have p4: "getParsedTransaction (stubNode (Inr []) (Inr (Some exactTransferTx))) ''sig''
              = Inr (Some exactTransferTx)
         \<and> message_accountKeys exactTransferTx = Some ?K \<and> (\<forall>k\<in>set ?K. \<exists>s. k = PubkeyObject s)"
    using k by (simp add: stubNode_sel)
  have 4: "fetchAndParseTransaction (stubNode (Inr []) (Inr (Some exactTransferTx))) ''sig''
       = Some \<lparr>signature = ''sig'', timestamp = Some 1700000000,
               outgoingTransfers =
                 [\<lparr>transfer_from = ''CEX'', transfer_to = ''multiple'', amount = 1\<rparr>,
                  \<lparr>transfer_from = ''FEE'', transfer_to = ''multiple'', amount = 1 / 200000\<rparr>],
               incomingTransfers =
                 [\<lparr>transfer_from = ''multiple'', transfer_to = ''R'', amount = 1\<rparr>],
               accountKeys = [''CEX'', ''R'', ''FEE'']\<rparr>"
    using analyzer_result [THEN conjunct2, THEN conjunct2, THEN conjunct1, rule_format, OF p4]
    by (simp add: Let_def exactTransferTx_def orEmpty_def balanceAt_def LAMPORTS_PER_SOL_def
          truthyTime_def)
  have p5: "getParsedTransaction (stubNode (Inr []) (Inr (Some (exactTransferTx\<lparr>meta := None\<rparr>)))) ''sig''
              = Inr (Some (exactTransferTx\<lparr>meta := None\<rparr>))
         \<and> message_accountKeys (exactTransferTx\<lparr>meta := None\<rparr>) = Some ?K
         \<and> (\<forall>k\<in>set ?K. \<exists>s. k = PubkeyObject s)
         \<and> meta (exactTransferTx\<lparr>meta := None\<rparr>) = None"
    using k by (simp add: stubNode_sel)
  have 5: "fetchAndParseTransaction (stubNode (Inr []) (Inr (Some (exactTransferTx\<lparr>meta := None\<rparr>)))) ''sig''
       = Some \<lparr>signature = ''sig'', timestamp = Some 1700000000, outgoingTransfers = [],
               incomingTransfers = [], accountKeys = [''CEX'', ''R'', ''FEE'']\<rparr>"
    using analyzer_result [THEN conjunct2, THEN conjunct2, THEN conjunct2, rule_format, OF p5]
    by (simp add: exactTransferTx_def truthyTime_def)
  have 0: "getParsedTransaction (stubNode (Inr []) (Inr None)) ''sig'' = Inr None"
    by (simp add: stubNode_sel)
  from 0 1 2 3 k 4 5 show ?thesis by (simp only: simp_thms)
qed

subsection \<open>Range parsing\<close>

lemma mapThrowing_Inr_D:
  "mapThrowing f xs = Inr ys \<Longrightarrow> \<forall>y\<in>set ys. \<exists>x\<in>set xs. f x = Inr y"
  by (induction xs arbitrary: ys) (auto split: sum.splits)

lemma parseRangeSegment_bounds:
  "parseRangeSegment toNumber seg = Inr r \<Longrightarrow> range_min r \<le> range_max r"
  by (auto simp add: parseRangeSegment_def split: prod.splits option.splits if_splits)

lemma parseRangeString_bounds:
  "parseRangeString toNumber str = Inr rs \<Longrightarrow> \<forall>r\<in>set rs. range_min r \<le> range_max r"
  unfolding parseRangeString_def
  using mapThrowing_Inr_D parseRangeSegment_bounds by fastforce

text \<open>
  Claim C7. A range string is to be refused with a format error when a bound is not
  numeric and with a bounds error when \<open>min > max\<close>, so that every parsed range has
  \<open>min \<le> max\<close>. \<^verbatim>\<open>parseRangeString\<close> does so (lemma \<open>parseRangeString_bounds\<close>), but
  \<^verbatim>\<open>parseRanges\<close>, the parser that \<^verbatim>\<open>loadConfig\<close> calls, has no bounds test: it
  accepts \<^verbatim>\<open>15-13\<close> and returns a range with \<open>min > max\<close>. Both refuse \<^verbatim>\<open>13-x\<close>.
\<close>

theorem loadConfig_ranges_accept_inverted_bounds:
  "parseRanges decimalNumber ''15-13'' = Inr [\<lparr>range_min = 15, range_max = 13\<rparr>]
   \<and> \<not> range_min \<lparr>range_min = 15, range_max = 13\<rparr> \<le> range_max \<lparr>range_min = 15, range_max = 13\<rparr>
   \<and> parseRangeString decimalNumber ''15-13'' = Inl (InvalidRangeBounds 15 13)
   \<and> parseRanges decimalNumber ''13-x'' = Inl (InvalidRangeFormat ''13-x'')
   \<and> parseRangeString decimalNumber ''13-x'' = Inl (InvalidRangeFormat ''13-x'')"
proof -
  have a: "parseRanges decimalNumber ''15-13'' = Inr [\<lparr>range_min = 15, range_max = 13\<rparr>]"
    by code_simp
  have b: "parseRangeString decimalNumber ''15-13'' = Inl (InvalidRangeBounds 15 13)"
    by code_simp
  have c: "parseRanges decimalNumber ''13-x'' = Inl (InvalidRangeFormat ''13-x'')"
    by code_simp
  have d: "parseRangeString decimalNumber ''13-x'' = Inl (InvalidRangeFormat ''13-x'')"
    by code_simp
  from a b c d show ?thesis by simp
qed

subsection \<open>The stream client\<close>

lemma reconnect_below_max:
  "reconnectAttempts s < maxReconnectAttempts s \<Longrightarrow>
   reconnect s = (s\<lparr>reconnectAttempts := reconnectAttempts s + 1\<rparr>,
                  [ScheduleConnect (reconnectDelay s * 2 ^ reconnectAttempts s)])"
  by (simp add: reconnect_def Let_def)

lemma reconnect_at_max:
  "maxReconnectAttempts s \<le> reconnectAttempts s \<Longrightarrow> reconnect s = (s, [])"
  by (simp add: reconnect_def)

lemma run_closes:
  "\<not> isManualClose s \<Longrightarrow> reconnectAttempts s \<le> maxReconnectAttempts s \<Longrightarrow>
   run (replicate k Closed) s =
     (s\<lparr>reconnectAttempts := reconnectAttempts s + min k (maxReconnectAttempts s - reconnectAttempts s)\<rparr>,
      map (\<lambda>i. ScheduleConnect (reconnectDelay s * 2 ^ (reconnectAttempts s + i)))
          [0..<min k (maxReconnectAttempts s - reconnectAttempts s)])"
proof (induction k arbitrary: s)
  case 0
  show ?case by simp
next
  case (Suc k)
  show ?case
  proof (cases "reconnectAttempts s < maxReconnectAttempts s")
    case True
    let ?s1 = "s\<lparr>reconnectAttempts := Suc (reconnectAttempts s)\<rparr>"
    have st: "step Closed s = (?s1, [ScheduleConnect (reconnectDelay s * 2 ^ reconnectAttempts s)])"
      using Suc.prems(1) True by (simp add: onClose_def reconnect_below_max)
    have p: "\<not> isManualClose ?s1" "reconnectAttempts ?s1 \<le> maxReconnectAttempts ?s1"
      using Suc.prems(1) True by simp_all
    have m: "min (Suc k) (maxReconnectAttempts s - reconnectAttempts s)
             = Suc (min k (maxReconnectAttempts s - Suc (reconnectAttempts s)))"
      using True by simp
    have u: "[0..<Suc (min k (maxReconnectAttempts s - Suc (reconnectAttempts s)))]
             = 0 # map Suc [0..<min k (maxReconnectAttempts s - Suc (reconnectAttempts s))]"
      by (simp add: upt_conv_Cons map_Suc_upt del: upt_Suc)
    have ih: "run (replicate k Closed) ?s1 =
        (s\<lparr>reconnectAttempts := Suc (reconnectAttempts s)
               + min k (maxReconnectAttempts s - Suc (reconnectAttempts s))\<rparr>,
         map (\<lambda>i. ScheduleConnect (reconnectDelay s * 2 ^ (Suc (reconnectAttempts s) + i)))
           [0..<min k (maxReconnectAttempts s - Suc (reconnectAttempts s))])"
      using Suc.IH [OF p] by simp
    have "run (replicate (Suc k) Closed) s =
            (fst (run (replicate k Closed) ?s1),
             ScheduleConnect (reconnectDelay s * 2 ^ reconnectAttempts s)
               # snd (run (replicate k Closed) ?s1))"
      by (simp add: st split: prod.split del: step.simps)
    then show ?thesis
      unfolding ih m u by (simp add: comp_def)
  next
    case False
    with Suc.prems have eq: "reconnectAttempts s = maxReconnectAttempts s" by simp
    then have st: "step Closed s = (s, [])"
      using Suc.prems(1) by (simp add: onClose_def reconnect_at_max)
    have "run (replicate (Suc k) Closed) s = run (replicate k Closed) s"
      by (simp add: st split: prod.split del: step.simps)
    then show ?thesis
      using eq by (simp add: Suc.IH [OF Suc.prems])
  qed
qed

text \<open>
  Against claim C8 as stated. The first socket opens and closes before any subscription
  response arrives; the first reconnect attempt fails; the second opens. At that
  \<^verbatim>\<open>'open'\<close> event the counter goes from 2 to 0 although no subscription identifier has
  ever been stored, and the next close starts again at the base delay.
\<close>

theorem reset_before_subscribed_counterexample:
  "reconnectAttempts
     (fst (run [ConnectCalled, Opened, Closed, ConnectCalled, Errored, Closed, ConnectCalled]
             newListener)) = 2
   \<and> reconnectAttempts
       (fst (run [ConnectCalled, Opened, Closed, ConnectCalled, Errored, Closed, ConnectCalled,
                  Opened] newListener)) = 0
   \<and> \<not> subscribed
         (fst (run [ConnectCalled, Opened, Closed, ConnectCalled, Errored, Closed, ConnectCalled,
                    Opened] newListener))
   \<and> snd (run [ConnectCalled, Opened, Closed, ConnectCalled, Errored, Closed, ConnectCalled,
               Opened, Closed] newListener)
       = [OpenSocket, SendSubscribe, ScheduleConnect 3000, OpenSocket, ScheduleConnect 6000,
          OpenSocket, SendSubscribe, ScheduleConnect 3000]"
  by (simp add: newListener_def onClose_def reconnect_def connect_def onOpen_def subscribe_def
        subscribed_def Let_def)

text \<open>
  Claim C8, amended. The \<open>n\<close>-th reconnect attempt in a row, for \<open>1 \<le> n\<close> up to the
  maximum attempt count, is scheduled after \<open>reconnectDelay * 2 ^ (n - 1)\<close> milliseconds
  and sets the counter to \<open>n\<close>; once the counter has reached the maximum, a close
  schedules nothing. From a new listener, \<open>k\<close> closes in a row schedule the delays
  \<open>3000 * 2 ^ i\<close> for \<open>i < min k 10\<close>: 3000, 6000, 12000, 24000 for the first four. The
  counter is set to zero by the \<^verbatim>\<open>'open'\<close> event of the socket, whatever the
  subscription identifier is at that time, and no other event lowers it.
\<close>

theorem reconnect_backoff:
  "(\<forall>n. 1 \<le> n \<and> n \<le> maxReconnectAttempts s \<and> reconnectAttempts s = n - 1 \<and> \<not> isManualClose s
        \<longrightarrow> step Closed s = (s\<lparr>reconnectAttempts := n\<rparr>,
                                [ScheduleConnect (reconnectDelay s * 2 ^ (n - 1))]))
   \<and> (maxReconnectAttempts s \<le> reconnectAttempts s \<longrightarrow> step Closed s = (s, []))
   \<and> (\<forall>k. run (replicate k Closed) newListener =
          (newListener\<lparr>reconnectAttempts := min k 10\<rparr>,
           map (\<lambda>i. ScheduleConnect (3000 * 2 ^ i)) [0..<min k 10]))
   \<and> snd (run [Closed, Closed, Closed, Closed] newListener)
       = [ScheduleConnect 3000, ScheduleConnect 6000, ScheduleConnect 12000, ScheduleConnect 24000]
   \<and> reconnectAttempts (fst (step Opened s)) = 0
   \<and> subscriptionId (fst (step Opened s)) = subscriptionId s
   \<and> (\<forall>e. e \<noteq> Opened \<longrightarrow> reconnectAttempts s \<le> reconnectAttempts (fst (step e s)))"
proof -
  have a: "\<forall>n. 1 \<le> n \<and> n \<le> maxReconnectAttempts s \<and> reconnectAttempts s = n - 1 \<and> \<not> isManualClose s
        \<longrightarrow> step Closed s = (s\<lparr>reconnectAttempts := n\<rparr>,
                                [ScheduleConnect (reconnectDelay s * 2 ^ (n - 1))])"
    by (auto simp add: onClose_def reconnect_def Let_def)
  have b: "maxReconnectAttempts s \<le> reconnectAttempts s \<longrightarrow> step Closed s = (s, [])"
    by (simp add: onClose_def reconnect_def)
  have c: "\<forall>k. run (replicate k Closed) newListener =
          (newListener\<lparr>reconnectAttempts := min k 10\<rparr>,
           map (\<lambda>i. ScheduleConnect (3000 * 2 ^ i)) [0..<min k 10])"
  proof
    fix k
    have "\<not> isManualClose newListener"
         "reconnectAttempts newListener \<le> maxReconnectAttempts newListener"
      by (simp_all add: newListener_def)
    from run_closes [OF this, of k] show "run (replicate k Closed) newListener =
          (newListener\<lparr>reconnectAttempts := min k 10\<rparr>,
           map (\<lambda>i. ScheduleConnect (3000 * 2 ^ i)) [0..<min k 10])"
      by (simp add: newListener_def)
  qed
  have d: "snd (run [Closed, Closed, Closed, Closed] newListener)
       = [ScheduleConnect 3000, ScheduleConnect 6000, ScheduleConnect 12000, ScheduleConnect 24000]"
    by (simp add: newListener_def onClose_def reconnect_def Let_def)
  have e: "reconnectAttempts (fst (step Opened s)) = 0"
    by (simp add: onOpen_def subscribe_def)
  have f: "subscriptionId (fst (step Opened s)) = subscriptionId s"
    by (simp add: onOpen_def subscribe_def)
  have g: "\<forall>e. e \<noteq> Opened \<longrightarrow> reconnectAttempts s \<le> reconnectAttempts (fst (step e s))"
  proof (intro allI impI)
    fix e :: ws_event assume "e \<noteq> Opened"
    then show "reconnectAttempts s \<le> reconnectAttempts (fst (step e s))"
      by (cases e)
         (auto simp add: handleMessage_def onClose_def reconnect_def connect_def close_def Let_def
               split: ws_message.splits msg_result.splits)
  qed
  show ?thesis by (intro conjI a b c d e f g)
qed


theorem reconnect_backoff_witness:
  "(1::nat) \<le> 3 \<and> 3 \<le> maxReconnectAttempts (newListener\<lparr>reconnectAttempts := 2\<rparr>)
   \<and> \<not> isManualClose (newListener\<lparr>reconnectAttempts := 2\<rparr>)
   \<and> step Closed (newListener\<lparr>reconnectAttempts := 2\<rparr>)
       = (newListener\<lparr>reconnectAttempts := 3\<rparr>, [ScheduleConnect 12000])
   \<and> maxReconnectAttempts (newListener\<lparr>reconnectAttempts := 10\<rparr>)
       \<le> reconnectAttempts (newListener\<lparr>reconnectAttempts := 10\<rparr>)
   \<and> step Closed (newListener\<lparr>reconnectAttempts := 10\<rparr>)
       = (newListener\<lparr>reconnectAttempts := 10\<rparr>, [])
   \<and> Received (Message (ResultNumber 7) None) \<noteq> Opened
   \<and> 2 \<le> reconnectAttempts
            (fst (step (Received (Message (ResultNumber 7) None))
                    (newListener\<lparr>reconnectAttempts := 2\<rparr>)))
   \<and> reconnectAttempts (fst (step Opened (newListener\<lparr>reconnectAttempts := 2\<rparr>))) = 0"
proof -
  let ?s = "newListener\<lparr>reconnectAttempts := 2\<rparr>"
  let ?t = "newListener\<lparr>reconnectAttempts := 10\<rparr>"
  have p: "1 \<le> (3::nat) \<and> 3 \<le> maxReconnectAttempts ?s \<and> reconnectAttempts ?s = 3 - 1
           \<and> \<not> isManualClose ?s"
    by (simp add: newListener_def)
  from reconnect_backoff [of ?s, THEN conjunct1, rule_format, OF p]
  have 1: "step Closed ?s = (newListener\<lparr>reconnectAttempts := 3\<rparr>, [ScheduleConnect 12000])"
    by (simp add: newListener_def)
  have q: "maxReconnectAttempts ?t \<le> reconnectAttempts ?t"
    by (simp add: newListener_def)
  from reconnect_backoff [of ?t, THEN conjunct2, THEN conjunct1, rule_format, OF q]
  have 2: "step Closed ?t = (?t, [])" .
  have r: "Received (Message (ResultNumber 7) None) \<noteq> Opened" by simp
  from reconnect_backoff [of ?s, THEN conjunct2, THEN conjunct2, THEN conjunct2, THEN conjunct2,
         THEN conjunct2, THEN conjunct2, rule_format, OF r]
  have 3: "2 \<le> reconnectAttempts (fst (step (Received (Message (ResultNumber 7) None)) ?s))"
    by (simp add: newListener_def)
  from reconnect_backoff [of ?s, THEN conjunct2, THEN conjunct2, THEN conjunct2, THEN conjunct2,
         THEN conjunct1]
  have 4: "reconnectAttempts (fst (step Opened ?s)) = 0" .
  from p q 1 2 r 3 4 show ?thesis by (simp only: simp_thms)
qed

end
